theory Spec2Isabelle
  imports
    Main
    "HOL-Library.Sublist"
    "HOL-Library.Char_ord"
    "HOL-Library.List_Lexorder"
    "HOL-Library.Multiset"
    "HOL-Library.AList"
begin

section \<open>Python string primitives used by \<open>tools/scrape-hwdef.py\<close>\<close>

text \<open>
  Python \<open>str\<close> values are modelled as \<open>string\<close> (lists of \<open>char\<close>); a \<open>char\<close> stands
  for a code point below 256.  Comparison of strings is the lexicographic order on code
  points (\<open>Char_ord\<close>, \<open>List_Lexorder\<close>), as Python compares \<open>str\<close>.  Python integers are
  unbounded (\<open>int\<close>); the interpreter's optional limit on the number of digits accepted
  by \<open>int()\<close> is not modelled.
\<close>

definition is_space :: "char \<Rightarrow> bool" where
  \<comment> \<open>\<open>str.isspace\<close> on code points below 256: TAB..CR, FS..US, SPACE, NEL, NBSP.\<close>
  "is_space c = (of_char c \<in> {9, 10, 11, 12, 13, 28, 29, 30, 31, 32, 133, 160 :: nat})"

definition is_digit :: "char \<Rightarrow> bool" where
  \<comment> \<open>the regular-expression class \<open>\d\<close> on code points below 256\<close>
  "is_digit c = (c \<in> set ''0123456789'')"

definition digit_val :: "char \<Rightarrow> nat" where
  "digit_val c = of_char c - 48"

definition nat_of_digits :: "string \<Rightarrow> nat" where
  \<comment> \<open>\<open>int(s)\<close> for a non-empty string of decimal digits\<close>
  "nat_of_digits ds = foldl (\<lambda>n c. 10 * n + digit_val c) 0 ds"

definition startswith :: "string \<Rightarrow> string \<Rightarrow> bool" where
  \<comment> \<open>\<open>s.startswith(p)\<close>\<close>
  "startswith s p = prefix p s"

definition endswith :: "string \<Rightarrow> string \<Rightarrow> bool" where
  \<comment> \<open>\<open>s.endswith(p)\<close>\<close>
  "endswith s p = suffix p s"

fun contains :: "string \<Rightarrow> string \<Rightarrow> bool" where
  \<comment> \<open>\<open>sub in s\<close> for strings, written \<open>contains s sub\<close>\<close>
  "contains [] sub = (sub = [])"
| "contains (c # cs) sub = (prefix sub (c # cs) \<or> contains cs sub)"

definition lstrip :: "string \<Rightarrow> string" where
  "lstrip s = dropWhile is_space s"

definition rstrip :: "string \<Rightarrow> string" where
  "rstrip s = rev (dropWhile is_space (rev s))"

definition strip :: "string \<Rightarrow> string" where
  \<comment> \<open>\<open>s.strip()\<close>\<close>
  "strip s = rstrip (lstrip s)"

definition strip_char :: "char \<Rightarrow> string \<Rightarrow> string" where
  \<comment> \<open>\<open>s.strip(c)\<close> for a one-character argument\<close>
  "strip_char c s = rev (dropWhile (\<lambda>x. x = c) (rev (dropWhile (\<lambda>x. x = c) s)))"

fun split_acc :: "string \<Rightarrow> string \<Rightarrow> string list" where
  \<comment> \<open>the token being read (reversed) and the rest of the input\<close>
  "split_acc cur [] = (if cur = [] then [] else [rev cur])"
| "split_acc cur (c # cs) =
     (if is_space c then (if cur = [] then split_acc [] cs else rev cur # split_acc [] cs)
      else split_acc (c # cur) cs)"

definition split_ws :: "string \<Rightarrow> string list" where
  \<comment> \<open>\<open>s.split()\<close>: the maximal runs of non-whitespace characters\<close>
  "split_ws s = split_acc [] s"

definition split_once :: "string \<Rightarrow> string list" where
  \<comment> \<open>\<open>s.split(None, 1)\<close>: the first token and, when non-empty, the remainder with its
      leading whitespace removed\<close>
  "split_once s =
     (let s1 = dropWhile is_space s in
      if s1 = [] then []
      else
        let tok = takeWhile (\<lambda>c. \<not> is_space c) s1;
            rest = dropWhile is_space (dropWhile (\<lambda>c. \<not> is_space c) s1)
        in if rest = [] then [tok] else [tok, rest])"

fun join :: "string \<Rightarrow> string list \<Rightarrow> string" where
  \<comment> \<open>\<open>sep.join(xs)\<close>\<close>
  "join sep [] = []"
| "join sep [x] = x"
| "join sep (x # y # ys) = x @ sep @ join sep (y # ys)"

definition lower_char :: "char \<Rightarrow> char" where
  \<comment> \<open>\<open>str.lower\<close> on one code point below 256: A..Z and the Latin-1 capitals\<close>
  "lower_char c =
     (let n = (of_char c :: nat) in
      if (65 \<le> n \<and> n \<le> 90) \<or> (192 \<le> n \<and> n \<le> 222 \<and> n \<noteq> 215) then char_of (n + 32) else c)"

definition lower :: "string \<Rightarrow> string" where
  "lower s = map lower_char s"

definition upper_char :: "char \<Rightarrow> char" where
  \<comment> \<open>\<open>str.upper\<close> on one ASCII code point; the program upper-cases only the ASCII chip
      identifiers of its tables\<close>
  "upper_char c =
     (let n = (of_char c :: nat) in if 97 \<le> n \<and> n \<le> 122 then char_of (n - 32) else c)"

definition upper :: "string \<Rightarrow> string" where
  "upper s = map upper_char s"

definition rsplit_head :: "string \<Rightarrow> string" where
  \<comment> \<open>\<open>s.rsplit('_', 1)[0]\<close>: what precedes the last underscore, or \<open>s\<close> when it has none\<close>
  "rsplit_head s =
     (if CHR ''_'' \<in> set s then rev (tl (dropWhile (\<lambda>c. c \<noteq> CHR ''_'') (rev s))) else s)"

definition split_last :: "string \<Rightarrow> string" where
  \<comment> \<open>\<open>s.split('_')[-1]\<close>: what follows the last underscore\<close>
  "split_last s = rev (takeWhile (\<lambda>c. c \<noteq> CHR ''_'') (rev s))"

definition int_body_ok :: "string \<Rightarrow> bool" where
  \<comment> \<open>the digits of a decimal literal accepted by \<open>int()\<close>: digits, with single
      underscores allowed between digits\<close>
  "int_body_ok body =
     (body \<noteq> [] \<and> is_digit (hd body) \<and> is_digit (last body)
      \<and> list_all (\<lambda>c. is_digit c \<or> c = CHR ''_'') body \<and> \<not> contains body ''__'')"

definition py_int :: "string \<Rightarrow> int option" where
  \<comment> \<open>\<open>int(s)\<close> in base 10; \<open>None\<close> stands for \<open>ValueError\<close>\<close>
  "py_int s =
     (let t = strip s;
          neg = (t \<noteq> [] \<and> hd t = CHR ''-'');
          body = (if t \<noteq> [] \<and> (hd t = CHR ''-'' \<or> hd t = CHR ''+'') then tl t else t)
      in if int_body_ok body
         then Some ((if neg then - 1 else 1) * int (nat_of_digits (filter is_digit body)))
         else None)"

definition is_linebreak :: "char \<Rightarrow> bool" where
  \<comment> \<open>the line boundaries of \<open>str.splitlines\<close> below 256, CR apart\<close>
  "is_linebreak c = (of_char c \<in> {10, 11, 12, 28, 29, 30, 133 :: nat})"

fun splitlines_acc :: "string \<Rightarrow> string \<Rightarrow> string list" where
  "splitlines_acc cur [] = (if cur = [] then [] else [rev cur])"
| "splitlines_acc cur (c # cs) =
     (if c = CHR 0x0D then
        (case cs of
           [] \<Rightarrow> [rev cur]
         | d # ds \<Rightarrow> if d = CHR 0x0A then rev cur # splitlines_acc [] ds
                    else rev cur # splitlines_acc [] (d # ds))
      else if is_linebreak c then rev cur # splitlines_acc [] cs
      else splitlines_acc (c # cur) cs)"

definition splitlines :: "string \<Rightarrow> string list" where
  \<comment> \<open>\<open>s.splitlines()\<close>\<close>
  "splitlines s = splitlines_acc [] s"


subsection \<open>The regular expressions of the program\<close>

fun re_search :: "(string \<Rightarrow> 'a option) \<Rightarrow> string \<Rightarrow> 'a option" where
  \<comment> \<open>\<open>re.search\<close>: the match at the leftmost position where the pattern matches\<close>
  "re_search m [] = m []"
| "re_search m (c # cs) = (case m (c # cs) of Some g \<Rightarrow> Some g | None \<Rightarrow> re_search m cs)"

definition match_lit_digits :: "string \<Rightarrow> string \<Rightarrow> string option" where
  \<comment> \<open>a literal followed by \<open>(\d+)\<close>, matched at the start of \<open>s\<close>; the group is greedy\<close>
  "match_lit_digits lit s =
     (if prefix lit s then
        (let ds = takeWhile is_digit (drop (length lit) s) in if ds = [] then None else Some ds)
      else None)"

definition match_lit_digits_paren :: "string \<Rightarrow> string \<Rightarrow> string option" where
  \<comment> \<open>a literal followed by \<open>(\d+)\)\<close>: after the greedy run of digits a closing
      parenthesis must follow (a shorter run is followed by a digit, so backtracking
      cannot succeed)\<close>
  "match_lit_digits_paren lit s =
     (if prefix lit s then
        (let r = drop (length lit) s; ds = takeWhile is_digit r in
         if ds \<noteq> [] \<and> prefix '')'' (dropWhile is_digit r) then Some ds else None)
      else None)"

definition match_lit_digit :: "string \<Rightarrow> string \<Rightarrow> string option" where
  \<comment> \<open>a literal followed by \<open>(\d)\<close>\<close>
  "match_lit_digit lit s =
     (if prefix lit s then
        (case drop (length lit) s of [] \<Rightarrow> None | d # _ \<Rightarrow> if is_digit d then Some [d] else None)
      else None)"

section \<open>Data classes\<close>

record OutputPin =
  number :: int
  timer :: string
  timer_channel :: string
  gpio :: "int option"
  complementary :: bool
  bidir :: bool
  pin :: string

record OutputGroup =
  outputs :: "int list"
  group_timer :: string
  capabilities :: "string list"

record UartDef =
  serial_index :: int
  uart_name :: string
  has_tx :: bool
  has_rx :: bool
  rx_dma :: bool
  tx_dma :: bool
  is_usb :: bool
  is_empty :: bool

typedecl pyfloat
  \<comment> \<open>Python floats are opaque: the program only stores what \<open>float()\<close> returns\<close>

record BatteryMonitor =
  volt_pin :: "int option"
  curr_pin :: "int option"
  volt_mult :: "pyfloat option"
  amp_per_volt :: "pyfloat option"

record BuiltinSensors =
  imu :: "string list"
  barometer :: "string list"
  compass :: "string list"
  osd :: "string option"
  flash :: "string option"
  sdcard :: bool

record RcInput =
  input_type :: string
  rc_serial_index :: "int option"
  rc_pin :: string
  rc_timer :: string

record SpiDevice =
  \<comment> \<open>the dict appended by the SPIDEV branch, keys \<open>name\<close>, \<open>bus\<close>, \<open>devid\<close>, \<open>cs\<close>\<close>
  spi_name :: string
  spi_bus :: string
  spi_devid :: string
  spi_cs :: string

record BoardData =
  folder_name :: string
  board_name :: string
  apj_board_id :: "int option"
  apj_board_id_name :: string
  mcu_class :: string
  mcu_type :: string
  flash_kb :: int
  oscillator_hz :: int
  serial_order :: "string list"
  uarts :: "UartDef list"
  i2c_order :: "string list"
  pwm_outputs :: "OutputPin list"
  output_groups :: "OutputGroup list"
  sensors :: BuiltinSensors
  spi_devices :: "SpiDevice list"
  battery :: BatteryMonitor
  rc_input :: RcInput
  has_buzzer :: bool
  buzzer_pin :: string
  has_led_strip :: bool
  led_pin :: string
  has_safety_switch :: bool
  can_interfaces :: int
  dma_lines :: "string list"
  board_includes :: "string list"
  board_defines :: "(string \<times> string) list"
  header_comments :: string
  is_priority :: bool
  is_bootloader :: bool
  default_params :: "(string \<times> string) list"

text \<open>
  A Python \<open>dict\<close> is an association list in insertion order: \<open>d[k] = v\<close> is
  \<open>AList.update k v\<close> (an existing key keeps its place) and \<open>d.get(k)\<close> is \<open>map_of\<close>.
\<close>

datatype py_error = IndexError

record Runtime =
  \<comment> \<open>what the interpreter supplies: \<open>float()\<close>, and the order in which each of the
      module's chip sets is iterated (a Python \<open>set\<close> of strings has no fixed order)\<close>
  float_of :: "string \<Rightarrow> pyfloat option"
  imu_order :: "string list"
  baro_order :: "string list"
  compass_order :: "string list"
  osd_order :: "string list"
  flash_order :: "string list"

definition PRIORITY_BOARDS :: "string set" where
  "PRIORITY_BOARDS = set [
     ''fmuv3'', ''fmuv5'', ''fmuv6x'', ''fmuv6c'',
     ''CubeBlack'', ''CubeOrange'', ''CubeOrangePlus'',
     ''Pixhawk1'', ''Pixhawk6X'', ''Pixhawk6C'',
     ''MatekF405-Wing'', ''MatekH743'', ''MatekF405-TE'',
     ''MatekH743-Mini'', ''MatekH743-Slim'', ''MatekF405-STD'', ''MatekF765-Wing'',
     ''KakuteF4'', ''KakuteF7'', ''KakuteH7'', ''KakuteH7Mini'', ''KakuteH7-Wing'',
     ''SpeedyBeeF405v3'', ''SpeedyBeeF405v4'', ''SpeedyBeeF405Wing'', ''SpeedyBeeF405Mini'',
     ''JHEMCU-GSF405A'', ''JHEMCU-GF16-F405'',
     ''FoxeerF745V2'', ''FoxeerReaperF745AIO'',
     ''mRoControlZeroH7'',
     ''BlitzF745AIO'',
     ''omnibusf4pro'',
     ''MambaF405v2'', ''MambaH743v4'',
     ''FlywooF745'', ''FlywooF405S-AIO'',
     ''BetaFPV-F405'', ''BetaFPV-F745'',
     ''NxtPX4v2'',
     ''Pixhawk4'',
     ''mRoPixracerPro'']"







section \<open>Output groups (\<open>HwdefParser._compute_output_groups\<close>)\<close>

fun setdefault_append ::
  "(string \<times> OutputPin list) list \<Rightarrow> OutputPin \<Rightarrow> (string \<times> OutputPin list) list" where
  \<comment> \<open>\<open>timer_groups.setdefault(out.timer, []).append(out)\<close> on an insertion-ordered dict\<close>
  "setdefault_append [] out = [(timer out, [out])]"
| "setdefault_append ((k, v) # kvs) out =
     (if k = timer out then (k, v @ [out]) # kvs else (k, v) # setdefault_append kvs out)"

definition timer_groups :: "OutputPin list \<Rightarrow> (string \<times> OutputPin list) list" where
  "timer_groups pins = foldl setdefault_append [] pins"

definition timer_num_match :: "string \<Rightarrow> string option" where
  \<comment> \<open>\<open>re.search(r'TIM(\d+)', timer)\<close>, group 1\<close>
  "timer_num_match t = re_search (match_lit_digits ''TIM'') t"

definition group_caps :: "string \<Rightarrow> OutputPin list \<Rightarrow> string list" where
  "group_caps t outs =
     [''PWM''] @
     (case timer_num_match t of
        None \<Rightarrow> []
      | Some ds \<Rightarrow>
          if nat_of_digits ds \<le> 8
          then [''DShot''] @ (if \<exists>p\<in>set outs. bidir p then [''BDShot''] else [])
          else [])"

definition make_group :: "string \<times> OutputPin list \<Rightarrow> OutputGroup" where
  \<comment> \<open>the body of the loop: \<open>outputs.sort(key=lambda o: o.number)\<close> is a stable sort\<close>
  "make_group tg =
     (let outs = sort_key number (snd tg) in
      \<lparr>outputs = map number outs, group_timer = fst tg, capabilities = group_caps (fst tg) outs\<rparr>)"

definition synth_groups :: "OutputPin list \<Rightarrow> OutputGroup list" where
  \<comment> \<open>\<open>for timer, outputs in sorted(timer_groups.items())\<close>: the keys of a dict are
      distinct, so the tuples are ordered by their timer names alone\<close>
  "synth_groups pins = map make_group (sort_key fst (timer_groups pins))"

definition compute_output_groups :: "BoardData \<Rightarrow> BoardData" where
  "compute_output_groups board =
     board\<lparr>output_groups := output_groups board @ synth_groups (pwm_outputs board)\<rparr>"

section \<open>The directive processor (\<open>HwdefParser._process_line\<close>)\<close>

definition new_uart :: "nat \<times> string \<Rightarrow> UartDef" where
  \<comment> \<open>\<open>UartDef(serial_index=i, uart_name=..., is_usb=..., is_empty=...)\<close> with the
      defaults of the data class\<close>
  "new_uart iu =
     \<lparr>serial_index = int (fst iu), uart_name = snd iu, has_tx = True, has_rx = True,
      rx_dma = False, tx_dma = False,
      is_usb = (startswith (snd iu) ''OTG'' \<or> snd iu = ''USB''),
      is_empty = (snd iu = ''EMPTY'')\<rparr>"

definition serial_order_branch :: "BoardData \<Rightarrow> string list \<Rightarrow> BoardData" where
  "serial_order_branch board parts =
     board\<lparr>serial_order := tl parts, uarts := map new_uart (enumerate 0 (tl parts))\<rparr>"

definition pwm_branch :: "BoardData \<Rightarrow> string list \<Rightarrow> string \<Rightarrow> BoardData" where
  "pwm_branch board parts line =
     (let pin_name = parts ! 0; timer_ch = parts ! 1; tim = parts ! 2;
          pwm_match = re_search (match_lit_digits_paren ''PWM('') line;
          gpio_match = re_search (match_lit_digits_paren ''GPIO('') line
      in case pwm_match of
           None \<Rightarrow> board
         | Some ds \<Rightarrow>
             board\<lparr>pwm_outputs := pwm_outputs board @
               [\<lparr>number = int (nat_of_digits ds), timer = tim, timer_channel = timer_ch,
                 gpio = map_option (\<lambda>g. int (nat_of_digits g)) gpio_match,
                 complementary = (CHR ''N'' \<in> set (split_last timer_ch)
                                  \<and> last (split_last timer_ch) = CHR ''N''),
                 bidir = contains line ''BIDIR'',
                 pin = pin_name\<rparr>]\<rparr>)"

definition spidev_branch :: "BoardData \<Rightarrow> string list \<Rightarrow> BoardData" where
  "spidev_branch board parts =
     board\<lparr>spi_devices := spi_devices board @
       [\<lparr>spi_name = lower (parts ! 1), spi_bus = parts ! 2,
         spi_devid = (if length parts > 3 then parts ! 3 else []),
         spi_cs = (if length parts > 4 then parts ! 4 else [])\<rparr>]\<rparr>"

definition define_battery :: "Runtime \<Rightarrow> string \<Rightarrow> string \<Rightarrow> BatteryMonitor \<Rightarrow> BatteryMonitor" where
  "define_battery rt define_name define_val bat =
     (if define_name = ''HAL_BATT_VOLT_PIN'' then
        (case py_int define_val of Some n \<Rightarrow> bat\<lparr>volt_pin := Some n\<rparr> | None \<Rightarrow> bat)
      else if define_name = ''HAL_BATT_CURR_PIN'' then
        (case py_int define_val of Some n \<Rightarrow> bat\<lparr>curr_pin := Some n\<rparr> | None \<Rightarrow> bat)
      else if define_name = ''HAL_BATT_VOLT_SCALE'' then
        (case float_of rt define_val of Some f \<Rightarrow> bat\<lparr>volt_mult := Some f\<rparr> | None \<Rightarrow> bat)
      else if define_name = ''HAL_BATT_CURR_SCALE'' then
        (case float_of rt define_val of Some f \<Rightarrow> bat\<lparr>amp_per_volt := Some f\<rparr> | None \<Rightarrow> bat)
      else bat)"

definition define_branch :: "Runtime \<Rightarrow> BoardData \<Rightarrow> string list \<Rightarrow> BoardData" where
  "define_branch rt board parts =
     (let define_name = parts ! 1;
          define_val = join '' '' (drop 2 parts);
          b1 = board\<lparr>board_defines := AList.update define_name define_val (board_defines board)\<rparr>;
          b2 = (if define_name = ''HAL_BUZZER_PIN'' then b1\<lparr>has_buzzer := True\<rparr> else b1);
          b3 = b2\<lparr>battery := define_battery rt define_name define_val (battery b2)\<rparr>;
          b4 = (if define_name = ''HAL_HAVE_SAFETY_SWITCH'' \<and> strip define_val = ''1''
                then b3\<lparr>has_safety_switch := True\<rparr> else b3);
          b5 = (if define_name = ''HAL_NUM_CAN_IFACES''
                then (case py_int define_val of Some n \<Rightarrow> b4\<lparr>can_interfaces := n\<rparr> | None \<Rightarrow> b4)
                else b4);
          b6 = (if define_name = ''CHIBIOS_SHORT_BOARD_NAME''
                then b5\<lparr>board_name := strip_char (CHR 0x22) define_val\<rparr> else b5);
          b7 = (if define_name = ''HAL_LED_STRIP_PIN'' \<or> define_name = ''AP_NOTIFY_NEOPIXEL_PIN''
                then b6\<lparr>has_led_strip := True\<rparr> else b6);
          b8 = (if define_name = ''HAL_OSD_TYPE_DEFAULT'' \<and> strip define_val = ''1''
                then b7\<lparr>sensors := (sensors b7)\<lparr>osd := Some ''MAX7456''\<rparr>\<rparr> else b7)
      in if define_name = ''HAL_OS_FATFS_IO'' \<and> strip define_val = ''1''
         then b8\<lparr>sensors := (sensors b8)\<lparr>sdcard := True\<rparr>\<rparr> else b8)"

definition is_can_keyword :: "string \<Rightarrow> bool" where
  \<comment> \<open>\<open>keyword.startswith('CAN') and '_RX' in keyword or '_TX' in keyword\<close>: \<open>and\<close> binds
      tighter than \<open>or\<close>\<close>
  "is_can_keyword keyword =
     ((startswith keyword ''CAN'' \<and> contains keyword ''_RX'') \<or> contains keyword ''_TX'')"

definition can_branch :: "BoardData \<Rightarrow> string \<Rightarrow> string set \<Rightarrow> BoardData" where
  "can_branch board keyword undefs =
     (if keyword \<notin> undefs then
        (case re_search (match_lit_digit ''CAN'') keyword of
           Some d \<Rightarrow> board\<lparr>can_interfaces := max (can_interfaces board) (int (nat_of_digits d))\<rparr>
         | None \<Rightarrow> board)
      else board)"

definition dispatch ::
  "Runtime \<Rightarrow> (string \<times> int) list \<Rightarrow> BoardData \<Rightarrow> string \<Rightarrow> string list \<Rightarrow> string \<Rightarrow> string set
   \<Rightarrow> BoardData" where
  \<comment> \<open>the \<open>if\<close>/\<open>elif\<close> chain of \<open>_process_line\<close>, in the source's order; \<open>ids\<close> is
      \<open>self.board_ids\<close>\<close>
  "dispatch rt ids board keyword parts line undefs =
     (if keyword = ''MCU'' \<and> length parts \<ge> 3 then
        board\<lparr>mcu_class := parts ! 1, mcu_type := parts ! 2\<rparr>
      else if keyword = ''APJ_BOARD_ID'' then
        (if length parts \<ge> 2 then
           (let b1 = board\<lparr>apj_board_id_name := parts ! 1\<rparr> in
            case py_int (parts ! 1) of
              Some n \<Rightarrow> b1\<lparr>apj_board_id := Some n\<rparr>
            | None \<Rightarrow>
                (case map_of ids (parts ! 1) of
                   Some v \<Rightarrow> b1\<lparr>apj_board_id := Some v\<rparr>
                 | None \<Rightarrow> b1))
         else board)
      else if keyword = ''FLASH_SIZE_KB'' \<and> length parts \<ge> 2 then
        (case py_int (parts ! 1) of Some n \<Rightarrow> board\<lparr>flash_kb := n\<rparr> | None \<Rightarrow> board)
      else if keyword = ''OSCILLATOR_HZ'' \<and> length parts \<ge> 2 then
        (case py_int (parts ! 1) of Some n \<Rightarrow> board\<lparr>oscillator_hz := n\<rparr> | None \<Rightarrow> board)
      else if keyword = ''SERIAL_ORDER'' then serial_order_branch board parts
      else if keyword = ''I2C_ORDER'' then board\<lparr>i2c_order := tl parts\<rparr>
      else if length parts \<ge> 4 \<and> contains line ''PWM('' then pwm_branch board parts line
      else if keyword = ''SPIDEV'' \<and> length parts \<ge> 4 then spidev_branch board parts
      else if contains keyword ''BUZZER'' \<and> contains line ''OUTPUT'' then
        board\<lparr>has_buzzer := True, buzzer_pin := parts ! 0\<rparr>
      else if keyword = ''define'' \<and> length parts \<ge> 3 then define_branch rt board parts
      else if keyword = ''SDIO'' \<or> keyword = ''SDMMC'' then
        board\<lparr>sensors := (sensors board)\<lparr>sdcard := True\<rparr>\<rparr>
      else if is_can_keyword keyword then can_branch board keyword undefs
      else if keyword = ''DMA_PRIORITY'' \<or> keyword = ''DMA_NOSHARE'' then
        board\<lparr>dma_lines := dma_lines board @ [line]\<rparr>
      else if contains keyword ''LED'' \<and> contains line ''TIM'' \<and> \<not> contains line ''PWM'' then
        (if contains line ''NEOPIXEL'' \<or> contains line ''LED_STRIP''
         then board\<lparr>has_led_strip := True, led_pin := parts ! 0\<rparr> else board)
      else if keyword = ''include'' then
        board\<lparr>board_includes := board_includes board @ [if length parts > 1 then parts ! 1 else []]\<rparr>
      else if contains line ''BAT_VOLT'' \<or> contains line ''BATT_VOLTAGE'' then board
      else if contains line ''BAT_CURR'' \<or> contains line ''BATT_CURRENT'' then board
      else if length parts \<ge> 2 \<and> (contains (parts ! 0) ''NEOPIXEL'' \<or> contains (lower line) ''neopixel'')
      then board\<lparr>has_led_strip := True, led_pin := parts ! 0\<rparr>
      else board)"

definition process_line ::
  "Runtime \<Rightarrow> (string \<times> int) list \<Rightarrow> BoardData \<Rightarrow> string list \<Rightarrow> string \<Rightarrow> string set
   \<Rightarrow> py_error + BoardData" where
  \<comment> \<open>\<open>keyword = parts[0]\<close> raises on an empty list\<close>
  "process_line rt ids board parts line undefs =
     (case parts of
        [] \<Rightarrow> Inl IndexError
      | keyword # _ \<Rightarrow> Inr (dispatch rt ids board keyword parts line undefs))"

section \<open>Post-processing passes\<close>

subsection \<open>\<open>_detect_sensors\<close>\<close>

definition first_chip :: "string list \<Rightarrow> string \<Rightarrow> string option" where
  \<comment> \<open>\<open>for chip in CHIPS: if chip in name: ...; break\<close>: the first chip, in iteration
      order, that occurs in the name\<close>
  "first_chip order nm = find (\<lambda>chip. contains nm chip) order"

definition absorb :: "string list \<Rightarrow> string option \<Rightarrow> string list" where
  "absorb xs found =
     (case found of
        None \<Rightarrow> xs
      | Some chip \<Rightarrow> (let pretty = upper chip in if pretty \<notin> set xs then xs @ [pretty] else xs))"

definition detect_device :: "Runtime \<Rightarrow> BuiltinSensors \<Rightarrow> SpiDevice \<Rightarrow> BuiltinSensors" where
  "detect_device rt s dev =
     (let nm = lower (spi_name dev);
          s1 = s\<lparr>imu := absorb (imu s) (first_chip (imu_order rt) nm)\<rparr>;
          s2 = s1\<lparr>barometer := absorb (barometer s1) (first_chip (baro_order rt) nm)\<rparr>;
          s3 = s2\<lparr>compass := absorb (compass s2) (first_chip (compass_order rt) nm)\<rparr>;
          s4 = (case first_chip (osd_order rt) nm of
                  Some chip \<Rightarrow> s3\<lparr>osd := Some (upper chip)\<rparr> | None \<Rightarrow> s3);
          s5 = (case first_chip (flash_order rt) nm of
                  Some chip \<Rightarrow> s4\<lparr>flash := Some (upper chip)\<rparr> | None \<Rightarrow> s4)
      in if contains nm ''sdcard'' \<or> contains nm ''sd_card'' then s5\<lparr>sdcard := True\<rparr> else s5)"

definition detect_sensors :: "Runtime \<Rightarrow> BoardData \<Rightarrow> BoardData" where
  "detect_sensors rt board =
     board\<lparr>sensors := foldl (detect_device rt) (sensors board) (spi_devices board)\<rparr>"

subsection \<open>\<open>_detect_rc_input\<close>\<close>

definition is_skipped :: "string \<Rightarrow> bool" where
  \<comment> \<open>\<open>not line or line.startswith('#')\<close>\<close>
  "is_skipped line = (line = [] \<or> startswith line ''#'')"

fun rc_scan :: "string list \<Rightarrow> RcInput \<Rightarrow> RcInput" where
  \<comment> \<open>the loop with its two \<open>break\<close>s; the second argument is the value of
      \<open>board.rc_input\<close> before the loop\<close>
  "rc_scan [] r = r"
| "rc_scan (line # lines) r =
     (if is_skipped line then rc_scan lines r
      else if contains line ''RCIN'' \<and> contains line ''TIM'' \<and> length (split_ws line) \<ge> 3 then
        \<lparr>input_type = ''timer'', rc_serial_index = None,
         rc_pin = split_ws line ! 0, rc_timer = split_ws line ! 2\<rparr>
      else if contains line ''RCIN'' \<and> (contains line ''USART'' \<or> contains line ''UART'') then
        \<lparr>input_type = ''uart'', rc_serial_index = None,
         rc_pin = (case split_ws line of [] \<Rightarrow> [] | p # _ \<Rightarrow> p), rc_timer = []\<rparr>
      else rc_scan lines r)"

definition detect_rc_input :: "BoardData \<Rightarrow> string list \<Rightarrow> BoardData" where
  "detect_rc_input board lines =
     (let b1 = board\<lparr>rc_input := rc_scan lines (rc_input board)\<rparr> in
      if (case map_of (board_defines b1) ''HAL_SERIAL_INPUT_ENABLED'' of
            None \<Rightarrow> [] | Some v \<Rightarrow> v) = ''1''
      then b1\<lparr>rc_input := (rc_input b1)\<lparr>input_type := ''uart''\<rparr>\<rparr>
      else b1)"

subsection \<open>\<open>_parse_uart_details\<close>\<close>

record UartPins =
  \<comment> \<open>the inner dict \<open>{'tx': '', 'rx': '', 'tx_dma': False, 'rx_dma': False}\<close>\<close>
  pins_tx :: string
  pins_rx :: string
  pins_tx_dma :: bool
  pins_rx_dma :: bool

definition is_uart_func :: "string \<Rightarrow> bool" where
  \<comment> \<open>the condition under which the inner loop over the three prefixes reaches its body;
      the body does not depend on the prefix and ends in \<open>break\<close>\<close>
  "is_uart_func func =
     list_ex (\<lambda>uart_prefix. startswith func uart_prefix
                \<and> (contains func ''_TX'' \<or> contains func ''_RX''))
       [''USART'', ''UART'', ''LPUART'']"

definition record_uart_pin ::
  "(string \<times> UartPins) list \<Rightarrow> string \<Rightarrow> string \<Rightarrow> (string \<times> UartPins) list" where
  \<comment> \<open>a name not yet in the dict enters it with the blank entry, at the end\<close>
  "record_uart_pin uart_pins pn func =
     (let nm = rsplit_head func;
          e = (case map_of uart_pins nm of
                 None \<Rightarrow> \<lparr>pins_tx = [], pins_rx = [], pins_tx_dma = False, pins_rx_dma = False\<rparr>
               | Some e0 \<Rightarrow> e0)
      in if contains func ''_TX'' then AList.update nm (e\<lparr>pins_tx := pn\<rparr>) uart_pins
         else if contains func ''_RX'' then AList.update nm (e\<lparr>pins_rx := pn\<rparr>) uart_pins
         else AList.update nm e uart_pins)"

definition uart_pins_step :: "(string \<times> UartPins) list \<Rightarrow> string \<Rightarrow> (string \<times> UartPins) list" where
  "uart_pins_step uart_pins line =
     (if is_skipped line then uart_pins
      else
        let parts = split_ws line in
        if length parts < 2 then uart_pins
        else if is_uart_func (parts ! 1) then record_uart_pin uart_pins (parts ! 0) (parts ! 1)
        else uart_pins)"

definition nodma_step :: "string set \<Rightarrow> string \<Rightarrow> string set" where
  "nodma_step nodma line =
     (if is_skipped line then nodma
      else if contains line ''NODMA'' then
        foldl (\<lambda>acc p. foldl (\<lambda>acc2 uart_prefix. if startswith p uart_prefix then insert p acc2 else acc2)
                          acc [''USART'', ''UART''])
          nodma (split_ws line)
      else nodma)"

definition update_uart :: "(string \<times> UartPins) list \<Rightarrow> string set \<Rightarrow> UartDef \<Rightarrow> UartDef" where
  "update_uart uart_pins nodma_uarts uart =
     (let nm = uart_name uart;
          u1 = (case map_of uart_pins nm of
                  Some e \<Rightarrow> uart\<lparr>has_tx := (pins_tx e \<noteq> []), has_rx := (pins_rx e \<noteq> [])\<rparr>
                | None \<Rightarrow> uart)
      in if \<not> is_usb u1 \<and> \<not> is_empty u1
         then u1\<lparr>tx_dma := True, rx_dma := (nm \<notin> nodma_uarts)\<rparr>
         else u1)"

definition parse_uart_details :: "BoardData \<Rightarrow> string list \<Rightarrow> BoardData" where
  "parse_uart_details board lines =
     (let uart_pins = foldl uart_pins_step [] lines;
          nodma_uarts = foldl nodma_step {} lines
      in board\<lparr>uarts := map (update_uart uart_pins nodma_uarts) (uarts board)\<rparr>)"

subsection \<open>\<open>_resolve_board_id\<close>\<close>

definition resolve_board_id :: "(string \<times> int) list \<Rightarrow> BoardData \<Rightarrow> BoardData" where
  "resolve_board_id ids board =
     (if apj_board_id board = None \<and> apj_board_id_name board \<noteq> [] then
        (case map_of ids (apj_board_id_name board) of
           Some v \<Rightarrow> board\<lparr>apj_board_id := Some v\<rparr>
         | None \<Rightarrow>
             (case py_int (apj_board_id_name board) of
                Some n \<Rightarrow> board\<lparr>apj_board_id := Some n\<rparr>
              | None \<Rightarrow> board))
      else board)"

section \<open>Parsing a flattened line sequence (\<open>HwdefParser.parse_board\<close>)\<close>

definition new_board :: "string \<Rightarrow> BoardData" where
  \<comment> \<open>\<open>BoardData()\<close> with the folder's name, the bootloader flag and the priority flag\<close>
  "new_board folder =
     \<lparr>folder_name = folder, board_name = folder, apj_board_id = None, apj_board_id_name = [],
      mcu_class = [], mcu_type = [], flash_kb = 0, oscillator_hz = 0,
      serial_order = [], uarts = [], i2c_order = [], pwm_outputs = [], output_groups = [],
      sensors = \<lparr>imu = [], barometer = [], compass = [], osd = None, flash = None, sdcard = False\<rparr>,
      spi_devices = [],
      battery = \<lparr>volt_pin = None, curr_pin = None, volt_mult = None, amp_per_volt = None\<rparr>,
      rc_input = \<lparr>input_type = [], rc_serial_index = None, rc_pin = [], rc_timer = []\<rparr>,
      has_buzzer = False, buzzer_pin = [], has_led_strip = False, led_pin = [],
      has_safety_switch = False, can_interfaces = 0, dma_lines = [], board_includes = [],
      board_defines = [], header_comments = [],
      is_priority = (folder \<in> PRIORITY_BOARDS), is_bootloader = endswith folder ''-bl'',
      default_params = []\<rparr>"

fun header_scan :: "string list \<Rightarrow> string list" where
  \<comment> \<open>the comment lines before the first line that is neither a comment nor empty\<close>
  "header_scan [] = []"
| "header_scan (line # lines) =
     (if startswith line ''#'' then strip (dropWhile (\<lambda>c. c = CHR ''#'') line) # header_scan lines
      else if line \<noteq> [] then []
      else header_scan lines)"

fun directive_loop ::
  "Runtime \<Rightarrow> (string \<times> int) list \<Rightarrow> string list \<Rightarrow> BoardData \<Rightarrow> string set
   \<Rightarrow> py_error + BoardData" where
  \<comment> \<open>the loop \<open>for line in lines\<close> of \<open>parse_board\<close>, with the local set \<open>undefs\<close>;
      \<open>line.split(None, 1)[1]\<close> raises when the split has one element\<close>
  "directive_loop rt ids [] board undefs = Inr board"
| "directive_loop rt ids (line # lines) board undefs =
     (if is_skipped line then directive_loop rt ids lines board undefs
      else if startswith line ''undef '' then
        (case split_once line of
           _ # rest # _ \<Rightarrow> directive_loop rt ids lines board (insert (strip rest) undefs)
         | _ \<Rightarrow> Inl IndexError)
      else if split_ws line = [] then directive_loop rt ids lines board undefs
      else
        (case process_line rt ids board (split_ws line) line undefs of
           Inl e \<Rightarrow> Inl e
         | Inr board' \<Rightarrow> directive_loop rt ids lines board' undefs))"

definition post_process :: "Runtime \<Rightarrow> (string \<times> int) list \<Rightarrow> string list \<Rightarrow> BoardData \<Rightarrow> BoardData" where
  "post_process rt ids lines board =
     resolve_board_id ids
       (parse_uart_details
          (detect_rc_input (detect_sensors rt (compute_output_groups board)) lines) lines)"

definition parse_lines ::
  "Runtime \<Rightarrow> (string \<times> int) list \<Rightarrow> string \<Rightarrow> string list \<Rightarrow> py_error + BoardData" where
  \<comment> \<open>\<open>parse_board\<close> from the flattened lines on: the header comments, the directive loop
      and the post-processing passes.  \<open>folder\<close> is \<open>board_folder.name\<close>.  Reading
      \<open>defaults.parm\<close>, which follows, does not depend on the lines.\<close>
  "parse_lines rt ids folder lines =
     (let board = (new_board folder)
            \<lparr>header_comments := join [CHR 0x0A] (take 10 (header_scan lines))\<rparr>
      in case directive_loop rt ids lines board {} of
           Inl e \<Rightarrow> Inl e
         | Inr b \<Rightarrow> Inr (post_process rt ids lines b))"

definition is_stripped :: "string \<Rightarrow> bool" where
  \<comment> \<open>a line as \<open>resolve_lines\<close> produces it: \<open>raw_line.strip()\<close>\<close>
  "is_stripped line = (strip line = line)"

section \<open>Include resolution (\<open>HwdefParser.resolve_lines\<close>)\<close>

datatype file_state = Missing | Unreadable | Content string

record FileSystem =
  \<comment> \<open>what the program sees of the files: \<open>filepath.exists()\<close> and \<open>read_text\<close>, and the
      path \<open>(filepath.parent / inc_path).resolve()\<close> of an included file\<close>
  fs_read :: "string \<Rightarrow> file_state"
  fs_resolve :: "string \<Rightarrow> string \<Rightarrow> string"

datatype warning = DepthExceeded string | FileNotFound string | CannotRead string

record ResolverState =
  \<comment> \<open>\<open>self._include_cache\<close> and what has been printed to \<open>stderr\<close>\<close>
  include_cache :: "(string \<times> string list) list"
  stderr :: "warning list"

function
  resolve_lines :: "FileSystem \<Rightarrow> string \<Rightarrow> nat \<Rightarrow> ResolverState \<Rightarrow> string list \<times> ResolverState"
and
  resolve_loop ::
    "FileSystem \<Rightarrow> string \<Rightarrow> nat \<Rightarrow> string list \<Rightarrow> string list \<Rightarrow> ResolverState
     \<Rightarrow> string list \<times> ResolverState"
where
  "resolve_lines fs filepath depth st =
     (if depth > 10 then ([], st\<lparr>stderr := stderr st @ [DepthExceeded filepath]\<rparr>)
      else
        case map_of (include_cache st) filepath of
          Some cached \<Rightarrow> (cached, st)
        | None \<Rightarrow>
            (case fs_read fs filepath of
               Missing \<Rightarrow> ([], st\<lparr>stderr := stderr st @ [FileNotFound filepath]\<rparr>)
             | Unreadable \<Rightarrow> ([], st\<lparr>stderr := stderr st @ [CannotRead filepath]\<rparr>)
             | Content raw \<Rightarrow>
                 (case resolve_loop fs filepath depth (splitlines raw) [] st of
                    (lines, st') \<Rightarrow>
                      (lines, st'\<lparr>include_cache := AList.update filepath lines (include_cache st')\<rparr>))))"
| "resolve_loop fs filepath depth [] lines st = (lines, st)"
| "resolve_loop fs filepath depth (raw_line # rest) lines st =
     (let stripped = strip raw_line in
      if stripped = [] \<or> startswith stripped ''#'' then
        resolve_loop fs filepath depth rest (lines @ [stripped]) st
      else if startswith stripped ''include'' then
        (case split_once stripped of
           [_, inc_path] \<Rightarrow>
             (case resolve_lines fs (fs_resolve fs filepath (strip inc_path)) (depth + 1) st of
                (included, st') \<Rightarrow> resolve_loop fs filepath depth rest (lines @ included) st')
         | _ \<Rightarrow> resolve_loop fs filepath depth rest lines st)
      else resolve_loop fs filepath depth rest (lines @ [stripped]) st)"
  by pat_completeness auto
termination
  by (relation "inv_image (less_than <*lex*> less_than)
        (\<lambda>x. case x of
           Inl (fs, filepath, depth, st) \<Rightarrow> (if depth > 10 then 0 else 2 * (11 - depth), 0)
         | Inr (fs, filepath, depth, raw, lines, st) \<Rightarrow>
             (if depth > 10 then 1 else 2 * (11 - depth) - 1, length raw))")
     auto






definition nodma_line :: "string \<Rightarrow> string \<Rightarrow> bool" where
  \<comment> \<open>the NODMA scan adds the token \<open>p\<close> of this line to its set\<close>
  "nodma_line p line =
     (\<not> is_skipped line \<and> contains line ''NODMA'' \<and> p \<in> set (split_ws line)
      \<and> (startswith p ''USART'' \<or> startswith p ''UART''))"

definition fresh_uart :: "UartDef \<Rightarrow> bool" where
  \<comment> \<open>a channel as the SERIAL_ORDER branch creates it\<close>
  "fresh_uart u =
     (has_tx u \<and> has_rx u \<and> \<not> tx_dma u \<and> \<not> rx_dma u
      \<and> is_usb u = (startswith (uart_name u) ''OTG'' \<or> uart_name u = ''USB'')
      \<and> is_empty u = (uart_name u = ''EMPTY''))"

definition rc_classify :: "string \<Rightarrow> RcInput option" where
  \<comment> \<open>what one line makes of \<open>board.rc_input\<close> in the loop of \<open>_detect_rc_input\<close>; a line
      that classifies ends the loop\<close>
  "rc_classify line =
     (if is_skipped line then None
      else if contains line ''RCIN'' \<and> contains line ''TIM'' \<and> length (split_ws line) \<ge> 3 then
        Some \<lparr>input_type = ''timer'', rc_serial_index = None,
              rc_pin = split_ws line ! 0, rc_timer = split_ws line ! 2\<rparr>
      else if contains line ''RCIN'' \<and> (contains line ''USART'' \<or> contains line ''UART'') then
        Some \<lparr>input_type = ''uart'', rc_serial_index = None,
              rc_pin = (case split_ws line of [] \<Rightarrow> [] | p # _ \<Rightarrow> p), rc_timer = []\<rparr>
      else None)"

definition no_rc_input :: RcInput where
  \<comment> \<open>\<open>RcInput()\<close>\<close>
  "no_rc_input = \<lparr>input_type = [], rc_serial_index = None, rc_pin = [], rc_timer = []\<rparr>"

definition serial_input_enabled :: "BoardData \<Rightarrow> bool" where
  \<comment> \<open>\<open>board.defines.get('HAL_SERIAL_INPUT_ENABLED', '') == '1'\<close>\<close>
  "serial_input_enabled board = (map_of (board_defines board) ''HAL_SERIAL_INPUT_ENABLED'' = Some ''1'')"

section \<open>An example runtime\<close>

definition example_runtime :: Runtime where
  \<comment> \<open>a runtime whose \<open>float()\<close> accepts nothing and whose sets iterate in the order in
      which the source lists their elements\<close>
  "example_runtime =
     \<lparr>float_of = (\<lambda>_. None),
      imu_order = [
        ''mpu6000'', ''mpu6500'', ''mpu9250'',
        ''icm20602'', ''icm20608'', ''icm20689'', ''icm20948'',
        ''icm40609'', ''icm42605'', ''icm42670'', ''icm42688'',
        ''icm45686'',
        ''bmi055'', ''bmi088'', ''bmi270'',
        ''lsm9ds1'', ''lsm6dsl'', ''lsm6dsrx'',
        ''adis16470'', ''adis16507'',
        ''iam20680'',
        ''iim42652'',
        ''qmc5883l''],
      baro_order = [
        ''bmp280'', ''bmp388'', ''bmp390'', ''bmp581'',
        ''dps310'',
        ''ms5611'', ''ms5607'',
        ''spl06'',
        ''icp101xx'', ''icp201xx'',
        ''lps22h'', ''lps25h'',
        ''2smpb''],
      compass_order = [
        ''ist8310'', ''ist8308'',
        ''hmc5843'', ''hmc5883'', ''hmc5883l'',
        ''qmc5883l'', ''qmc5883'',
        ''lis3mdl'',
        ''ak8963'', ''ak09916'',
        ''rm3100'',
        ''mmc3416'', ''mmc5603'', ''mmc5983'',
        ''bmm150'', ''bmm350''],
      osd_order = [''max7456'', ''at7456e'', ''at7456''],
      flash_order = [
        ''w25q128'', ''w25q256'', ''w25q64'', ''w25q32'', ''w25q16'',
        ''w25n01g'', ''w25n02g'', ''w25n512g'',
        ''m25p16'',
        ''gd25q16'', ''gd25q32'', ''gd25q64'',
        ''at25sf161'',
        ''is25lp016d'']\<rparr>"

section \<open>Properties of the output groups\<close>

lemma setdefault_append_keys:
  "map fst (setdefault_append kvs out) =
     (if timer out \<in> fst ` set kvs then map fst kvs else map fst kvs @ [timer out])"
  by (induction kvs out rule: setdefault_append.induct) auto

lemma setdefault_append_map_of:
  "map_of (setdefault_append kvs out) =
     (map_of kvs)(timer out \<mapsto> (case map_of kvs (timer out) of None \<Rightarrow> [out] | Some v \<Rightarrow> v @ [out]))"
  by (induction kvs out rule: setdefault_append.induct) (auto simp: fun_eq_iff)

lemma setdefault_append_mset:
  "(\<Sum>kv\<leftarrow>setdefault_append kvs out. mset (snd kv)) = (\<Sum>kv\<leftarrow>kvs. mset (snd kv)) + {#out#}"
  by (induction kvs out rule: setdefault_append.induct) auto

lemma fold_groups_distinct:
  "distinct (map fst acc) \<Longrightarrow> distinct (map fst (foldl setdefault_append acc pins))"
  by (induction pins arbitrary: acc) (auto simp: setdefault_append_keys)

lemma fold_groups_map_of:
  "map_of (foldl setdefault_append acc pins) t =
     (case map_of acc t of
        Some v \<Rightarrow> Some (v @ filter (\<lambda>p. timer p = t) pins)
      | None \<Rightarrow> if t \<in> timer ` set pins then Some (filter (\<lambda>p. timer p = t) pins) else None)"
proof (induction pins arbitrary: acc)
  case Nil
  then show ?case by (simp split: option.splits)
next
  case (Cons p pins)
  show ?case
    by (simp add: Cons.IH setdefault_append_map_of split: option.splits) 
qed

lemma fold_groups_mset:
  "(\<Sum>kv\<leftarrow>foldl setdefault_append acc pins. mset (snd kv)) = (\<Sum>kv\<leftarrow>acc. mset (snd kv)) + mset pins"
  by (induction pins arbitrary: acc) (auto simp: setdefault_append_mset)

lemma timer_groups_distinct: "distinct (map fst (timer_groups pins))"
  by (simp add: timer_groups_def fold_groups_distinct)

lemma timer_groups_map_of:
  "map_of (timer_groups pins) t =
     (if t \<in> timer ` set pins then Some (filter (\<lambda>p. timer p = t) pins) else None)"
  by (simp add: timer_groups_def fold_groups_map_of)

lemma timer_groups_mem:
  "(t, outs) \<in> set (timer_groups pins) \<longleftrightarrow>
     t \<in> timer ` set pins \<and> outs = filter (\<lambda>p. timer p = t) pins"
  using map_of_eq_Some_iff [OF timer_groups_distinct, of pins t outs]
  by (auto simp: timer_groups_map_of split: if_splits)

lemma timer_groups_keys: "set (map fst (timer_groups pins)) = timer ` set pins"
proof -
  have "set (map fst (timer_groups pins)) = dom (map_of (timer_groups pins))"
    by (simp add: dom_map_of_conv_image_fst)
  also have "\<dots> = timer ` set pins"
    by (auto simp: timer_groups_map_of dom_def)
  finally show ?thesis .
qed

lemma timer_groups_mset: "(\<Sum>kv\<leftarrow>timer_groups pins. mset (snd kv)) = mset pins"
  by (simp add: timer_groups_def fold_groups_mset)

lemma synth_groups_timers:
  "map group_timer (synth_groups pins) = map fst (sort_key fst (timer_groups pins))"
  by (simp add: synth_groups_def make_group_def comp_def Let_def)

lemma synth_groups_timers_sorted: "sorted_wrt (<) (map group_timer (synth_groups pins))"
proof -
  have "mset (map fst (sort_key fst (timer_groups pins))) = mset (map fst (timer_groups pins))"
    by simp
  then have "distinct (map fst (sort_key fst (timer_groups pins)))"
    using timer_groups_distinct [of pins] mset_eq_imp_distinct_iff by blast
  then show ?thesis
    by (simp add: synth_groups_timers strict_sorted_iff)
qed

lemma synth_groups_timer_set: "set (map group_timer (synth_groups pins)) = timer ` set pins"
  using timer_groups_keys [of pins] by (simp add: synth_groups_timers)

lemma synth_groups_mem:
  "g \<in> set (synth_groups pins) \<longleftrightarrow>
     (\<exists>t\<in>timer ` set pins. g = make_group (t, filter (\<lambda>p. timer p = t) pins))"
proof -
  have "g \<in> set (synth_groups pins) \<longleftrightarrow> (\<exists>t outs. (t, outs) \<in> set (timer_groups pins) \<and> g = make_group (t, outs))"
    by (auto simp: synth_groups_def image_iff)
  then show ?thesis
    by (auto simp: timer_groups_mem)
qed

lemma image_mset_sum_list:
  "(\<Sum>kv\<leftarrow>xs. image_mset f (mset (snd kv))) = image_mset f (\<Sum>kv\<leftarrow>xs. mset (snd kv))"
  by (induction xs) auto

lemma sum_list_sort_key:
  "(\<Sum>x\<leftarrow>sort_key k xs. (f x :: 'b multiset)) = (\<Sum>x\<leftarrow>xs. f x)"
proof -
  have "mset (map f (sort_key k xs)) = mset (map f xs)"
    by simp
  then have "sum_mset (mset (map f (sort_key k xs))) = sum_mset (mset (map f xs))"
    by (rule arg_cong)
  then show ?thesis
    by (simp only: sum_mset_sum_list)
qed

lemma synth_groups_mset:
  "mset (concat (map outputs (synth_groups pins))) = image_mset number (mset pins)"
proof -
  have "mset (concat (map outputs (synth_groups pins)))
      = (\<Sum>kv\<leftarrow>sort_key fst (timer_groups pins). image_mset number (mset (snd kv)))"
    by (simp add: synth_groups_def mset_concat comp_def make_group_def Let_def)
  also have "\<dots> = (\<Sum>kv\<leftarrow>timer_groups pins. image_mset number (mset (snd kv)))"
    by (rule sum_list_sort_key)
  also have "\<dots> = image_mset number (\<Sum>kv\<leftarrow>timer_groups pins. mset (snd kv))"
    by (rule image_mset_sum_list)
  finally show ?thesis by (simp add: timer_groups_mset)
qed


lemma make_group_sel:
  "capabilities (make_group (t, outs)) = group_caps t (sort_key number outs)"
  "group_timer (make_group (t, outs)) = t"
  "outputs (make_group (t, outs)) = map number (sort_key number outs)"
  by (simp_all add: make_group_def Let_def)




lemma synth_groups_caps:
  assumes "g \<in> set (synth_groups pins)"
  shows "capabilities g = group_caps (group_timer g)
           (sort_key number (filter (\<lambda>p. timer p = group_timer g) pins))"
    and "group_timer g \<in> timer ` set pins"
    and "outputs g = map number (sort_key number (filter (\<lambda>p. timer p = group_timer g) pins))"
  using assms by (auto simp: synth_groups_mem make_group_sel)


section \<open>Properties of the directive loop and of the passes\<close>

lemma directive_loop_invariant:
  assumes step: "\<And>b0 keyword parts line u. P b0 \<Longrightarrow> P (dispatch rt ids b0 keyword parts line u)"
  shows "directive_loop rt ids lines board undefs = Inr b \<Longrightarrow> P board \<Longrightarrow> P b"
proof (induction lines arbitrary: board undefs)
  case Nil
  then show ?case by simp
next
  case (Cons line lines)
  show ?case
  proof (cases "is_skipped line")
    case True
    with Cons show ?thesis by simp
  next
    case ns: False
    show ?thesis
    proof (cases "startswith line ''undef ''")
      case True
      with ns Cons.prems Cons.IH show ?thesis
        by (auto split: list.splits)
    next
      case nu: False
      show ?thesis
      proof (cases "split_ws line")
        case Nil
        with ns nu Cons show ?thesis by simp
      next
        case (Cons keyword rest)
        with ns nu Cons.prems(1)
        have "directive_loop rt ids lines (dispatch rt ids board keyword (keyword # rest) line undefs) undefs = Inr b"
          by (simp add: process_line_def)
        moreover have "P (dispatch rt ids board keyword (keyword # rest) line undefs)"
          using Cons.prems(2) by (rule step)
        ultimately show ?thesis by (rule Cons.IH)
      qed
    qed
  qed
qed

lemma define_branch_frame [simp]:
  "output_groups (define_branch rt board parts) = output_groups board"
  "pwm_outputs (define_branch rt board parts) = pwm_outputs board"
  "uarts (define_branch rt board parts) = uarts board"
  "spi_devices (define_branch rt board parts) = spi_devices board"
  "imu (sensors (define_branch rt board parts)) = imu (sensors board)"
  "barometer (sensors (define_branch rt board parts)) = barometer (sensors board)"
  "compass (sensors (define_branch rt board parts)) = compass (sensors board)"
  "serial_order (define_branch rt board parts) = serial_order board"
  by (simp_all add: define_branch_def Let_def split: option.splits)


lemma can_branch_frame [simp]:
  "output_groups (can_branch board k u) = output_groups board"
  "pwm_outputs (can_branch board k u) = pwm_outputs board"
  "uarts (can_branch board k u) = uarts board"
  "spi_devices (can_branch board k u) = spi_devices board"
  "sensors (can_branch board k u) = sensors board"
  "board_defines (can_branch board k u) = board_defines board"
  "serial_order (can_branch board k u) = serial_order board"
  by (simp_all add: can_branch_def split: option.splits)

lemma pwm_branch_frame [simp]:
  "output_groups (pwm_branch board parts line) = output_groups board"
  "uarts (pwm_branch board parts line) = uarts board"
  "spi_devices (pwm_branch board parts line) = spi_devices board"
  "sensors (pwm_branch board parts line) = sensors board"
  "board_defines (pwm_branch board parts line) = board_defines board"
  "serial_order (pwm_branch board parts line) = serial_order board"
  by (simp_all add: pwm_branch_def Let_def split: option.splits)

lemma spidev_branch_frame [simp]:
  "output_groups (spidev_branch board parts) = output_groups board"
  "pwm_outputs (spidev_branch board parts) = pwm_outputs board"
  "uarts (spidev_branch board parts) = uarts board"
  "sensors (spidev_branch board parts) = sensors board"
  "board_defines (spidev_branch board parts) = board_defines board"
  "serial_order (spidev_branch board parts) = serial_order board"
  by (simp_all add: spidev_branch_def)

lemma serial_order_branch_frame [simp]:
  "output_groups (serial_order_branch board parts) = output_groups board"
  "pwm_outputs (serial_order_branch board parts) = pwm_outputs board"
  "spi_devices (serial_order_branch board parts) = spi_devices board"
  "sensors (serial_order_branch board parts) = sensors board"
  "board_defines (serial_order_branch board parts) = board_defines board"
  by (simp_all add: serial_order_branch_def)

lemma case_option_same [simp]: "(case x of None \<Rightarrow> a | Some y \<Rightarrow> a) = a"
  by (cases x) simp_all

lemma dispatch_output_groups [simp]:
  "output_groups (dispatch rt ids board keyword parts line undefs) = output_groups board"
  by (simp add: dispatch_def Let_def if_distrib [of output_groups] option.case_distrib [of output_groups]
      cong del: if_weak_cong option.case_cong_weak)

lemma dispatch_sensor_lists [simp]:
  "imu (sensors (dispatch rt ids board keyword parts line undefs)) = imu (sensors board)"
  "barometer (sensors (dispatch rt ids board keyword parts line undefs)) = barometer (sensors board)"
  "compass (sensors (dispatch rt ids board keyword parts line undefs)) = compass (sensors board)"
  by (simp_all add: dispatch_def Let_def if_distrib [of sensors] option.case_distrib [of sensors]
      if_distrib [of imu] if_distrib [of barometer] if_distrib [of compass]
      cong del: if_weak_cong option.case_cong_weak)

lemma dispatch_pwm_outputs:
  "pwm_outputs (dispatch rt ids board keyword parts line undefs) =
     (if keyword \<noteq> ''MCU'' \<and> keyword \<noteq> ''APJ_BOARD_ID'' \<and> keyword \<noteq> ''FLASH_SIZE_KB''
         \<and> keyword \<noteq> ''OSCILLATOR_HZ'' \<and> keyword \<noteq> ''SERIAL_ORDER'' \<and> keyword \<noteq> ''I2C_ORDER''
         \<and> length parts \<ge> 4 \<and> contains line ''PWM(''
      then pwm_outputs (pwm_branch board parts line) else pwm_outputs board)"
  by (simp add: dispatch_def Let_def if_distrib [of pwm_outputs] option.case_distrib [of pwm_outputs]
      cong del: if_weak_cong option.case_cong_weak)

lemma dispatch_uarts:
  "uarts (dispatch rt ids board keyword parts line undefs) =
     (if keyword = ''SERIAL_ORDER'' then map new_uart (enumerate 0 (tl parts)) else uarts board)"
  by (simp add: dispatch_def Let_def if_distrib [of uarts] option.case_distrib [of uarts]
      serial_order_branch_def
      cong del: if_weak_cong option.case_cong_weak)

lemma post_frame [simp]:
  "output_groups (compute_output_groups b) = output_groups b @ synth_groups (pwm_outputs b)"
  "pwm_outputs (compute_output_groups b) = pwm_outputs b"
  "uarts (compute_output_groups b) = uarts b"
  "sensors (compute_output_groups b) = sensors b"
  "spi_devices (compute_output_groups b) = spi_devices b"
  "board_defines (compute_output_groups b) = board_defines b"
  "rc_input (compute_output_groups b) = rc_input b"
  "output_groups (detect_sensors rt b) = output_groups b"
  "pwm_outputs (detect_sensors rt b) = pwm_outputs b"
  "uarts (detect_sensors rt b) = uarts b"
  "board_defines (detect_sensors rt b) = board_defines b"
  "rc_input (detect_sensors rt b) = rc_input b"
  "sensors (detect_sensors rt b) = foldl (detect_device rt) (sensors b) (spi_devices b)"
  "output_groups (detect_rc_input b lines) = output_groups b"
  "pwm_outputs (detect_rc_input b lines) = pwm_outputs b"
  "uarts (detect_rc_input b lines) = uarts b"
  "sensors (detect_rc_input b lines) = sensors b"
  "board_defines (detect_rc_input b lines) = board_defines b"
  "output_groups (parse_uart_details b lines) = output_groups b"
  "pwm_outputs (parse_uart_details b lines) = pwm_outputs b"
  "sensors (parse_uart_details b lines) = sensors b"
  "board_defines (parse_uart_details b lines) = board_defines b"
  "rc_input (parse_uart_details b lines) = rc_input b"
  "output_groups (resolve_board_id ids b) = output_groups b"
  "pwm_outputs (resolve_board_id ids b) = pwm_outputs b"
  "uarts (resolve_board_id ids b) = uarts b"
  "sensors (resolve_board_id ids b) = sensors b"
  "board_defines (resolve_board_id ids b) = board_defines b"
  "rc_input (resolve_board_id ids b) = rc_input b"
  by (simp_all add: compute_output_groups_def detect_sensors_def detect_rc_input_def
      parse_uart_details_def resolve_board_id_def Let_def split: option.splits)

lemma loop_output_groups:
  assumes "directive_loop rt ids lines board undefs = Inr b"
  shows "output_groups b = output_groups board"
  using assms
  by (rule directive_loop_invariant [where P = "\<lambda>x. output_groups x = output_groups board", rotated]) simp_all

lemma parse_lines_Inr:
  "parse_lines rt ids folder lines = Inr b \<longleftrightarrow>
     (\<exists>b1. directive_loop rt ids lines
             ((new_board folder)\<lparr>header_comments := join [CHR 0x0A] (take 10 (header_scan lines))\<rparr>) {}
           = Inr b1 \<and> b = post_process rt ids lines b1)"
  by (auto simp: parse_lines_def Let_def split: sum.splits)

lemma parse_lines_output_groups:
  assumes "parse_lines rt ids folder lines = Inr b"
  shows "output_groups b = synth_groups (pwm_outputs b)"
proof -
  from assms obtain b1 where
    loop: "directive_loop rt ids lines
             ((new_board folder)\<lparr>header_comments := join [CHR 0x0A] (take 10 (header_scan lines))\<rparr>) {}
           = Inr b1"
    and b: "b = post_process rt ids lines b1"
    by (auto simp: parse_lines_Inr)
  have "output_groups b1 = []"
    using loop_output_groups [OF loop] by (simp add: new_board_def)
  then show ?thesis
    by (simp add: b post_process_def)
qed

lemma stripped_last:
  assumes "is_stripped s" "s \<noteq> []"
  shows "\<not> is_space (last s)"
proof -
  let ?t = "dropWhile is_space (rev (dropWhile is_space s))"
  have s: "s = rev ?t"
    using assms(1) by (simp add: is_stripped_def strip_def rstrip_def lstrip_def)
  have ne: "?t \<noteq> []"
  proof
    assume "?t = []"
    then have "rev ?t = []" by (simp only: rev.simps)
    with s assms(2) show False by simp
  qed
  then have "\<not> is_space (hd ?t)" by (rule hd_dropWhile)
  moreover have "last s = hd ?t"
    using ne by (subst s) (simp add: last_rev)
  ultimately show ?thesis by simp
qed

lemma split_once_undef:
  assumes "is_stripped line" "startswith line ''undef ''"
  shows "\<exists>t r. split_once line = [t, r]"
proof -
  from assms(2) obtain r where line: "line = ''undef '' @ r"
    by (auto simp: startswith_def prefix_def)
  have nsp: "\<not> is_space (last line)"
    using assms(1) by (rule stripped_last) (simp add: line)
  have sp: "is_space CHR '' ''" by (simp add: is_space_def)
  have r: "r \<noteq> []"
    using nsp sp by (auto simp: line)
  then have "last line = last r" by (simp add: line)
  with nsp r have "\<exists>x\<in>set r. \<not> is_space x"
    by (metis last_in_set)
  then have "dropWhile is_space r \<noteq> []"
    by (simp add: dropWhile_eq_Nil_conv)
  then show ?thesis
    by (simp add: line split_once_def is_space_def Let_def)
qed

lemma directive_loop_returns:
  "list_all is_stripped lines \<Longrightarrow> \<exists>b. directive_loop rt ids lines board undefs = Inr b"
proof (induction lines arbitrary: board undefs)
  case Nil
  then show ?case by simp
next
  case (Cons line lines)
  then have st: "is_stripped line" and rest: "list_all is_stripped lines" by simp_all
  note IH = Cons.IH [OF rest]
  show ?case
  proof (cases "is_skipped line")
    case True
    then show ?thesis using IH by simp
  next
    case ns: False
    show ?thesis
    proof (cases "startswith line ''undef ''")
      case True
      with split_once_undef [OF st] obtain t r where "split_once line = [t, r]" by blast
      with ns True IH show ?thesis by simp
    next
      case False
      with ns IH show ?thesis
        by (cases "split_ws line") (simp_all add: process_line_def)
    qed
  qed
qed

lemma parse_lines_returns:
  "list_all is_stripped lines \<Longrightarrow> \<exists>b. parse_lines rt ids folder lines = Inr b"
  using directive_loop_returns [of lines rt ids] by (fastforce simp: parse_lines_Inr)

section \<open>The claims\<close>



lemma synth_groups_same_timer:
  assumes "g \<in> set (synth_groups pins)" "g' \<in> set (synth_groups pins)"
    and "group_timer g = group_timer g'"
  shows "g = g'"
  using assms by (auto simp: synth_groups_mem make_group_sel)

lemma synth_groups_of_pin:
  assumes "p \<in> set pins"
  shows "\<exists>!g. g \<in> set (synth_groups pins) \<and> group_timer g = timer p"
proof (rule ex_ex1I)
  have "timer p \<in> set (map group_timer (synth_groups pins))"
    using assms by (simp only: synth_groups_timer_set) simp
  then show "\<exists>g. g \<in> set (synth_groups pins) \<and> group_timer g = timer p"
    by auto
next
  fix g g'
  assume "g \<in> set (synth_groups pins) \<and> group_timer g = timer p"
    and "g' \<in> set (synth_groups pins) \<and> group_timer g' = timer p"
  then show "g = g'"
    by (auto intro: synth_groups_same_timer)
qed

lemma synth_groups_number_unique:
  assumes d: "distinct (map number pins)" and p: "p \<in> set pins"
  shows "\<exists>!g. g \<in> set (synth_groups pins) \<and> number p \<in> set (outputs g)"
proof -
  from synth_groups_of_pin [OF p] obtain g where
    g: "g \<in> set (synth_groups pins)" and t: "group_timer g = timer p"
    by blast
  have inj: "inj_on number (set pins)"
    using d by (simp add: distinct_map)
  have mem: "number p \<in> set (outputs g)"
    using p t by (simp add: synth_groups_caps(3) [OF g])
  have "g' = g" if g': "g' \<in> set (synth_groups pins)" and n: "number p \<in> set (outputs g')" for g'
  proof -
    from n obtain q where q: "q \<in> set pins" "timer q = group_timer g'" "number q = number p"
      by (auto simp: synth_groups_caps(3) [OF g'])
    with inj p have "q = p" by (auto dest: inj_onD)
    with q t have "group_timer g' = group_timer g" by simp
    then show ?thesis by (rule synth_groups_same_timer [OF g' g])
  qed
  with g mem show ?thesis by blast
qed

text \<open>
  Claim C2, as amended.  The parser does not keep the output numbers of a board distinct, so
  a number can stand in two groups.  What holds for every board: each output pin belongs to
  exactly one group, the one of its timer; a group lists the numbers of exactly the pins
  with its timer, sorted ascending; the groups come in strictly ascending order of their
  timer names, one per timer; the groups' lists together hold the pins' numbers with the
  same multiplicities; hence, when the pins' numbers are pairwise distinct, no number is
  repeated and every pin's number stands in exactly one group.
\<close>

theorem output_group_partition:
  assumes "parse_lines rt ids folder lines = Inr b"
  shows "mset (concat (map outputs (output_groups b))) = mset (map number (pwm_outputs b))
       \<and> (\<forall>p\<in>set (pwm_outputs b). \<exists>!g. g \<in> set (output_groups b) \<and> group_timer g = timer p)
       \<and> (\<forall>g\<in>set (output_groups b).
            outputs g = map number (sort_key number
                          (filter (\<lambda>p. timer p = group_timer g) (pwm_outputs b)))
            \<and> sorted (outputs g))
       \<and> sorted_wrt (<) (map group_timer (output_groups b))
       \<and> set (map group_timer (output_groups b)) = timer ` set (pwm_outputs b)
       \<and> (distinct (map number (pwm_outputs b)) \<longrightarrow>
            distinct (concat (map outputs (output_groups b)))
            \<and> (\<forall>p\<in>set (pwm_outputs b).
                 \<exists>!g. g \<in> set (output_groups b) \<and> number p \<in> set (outputs g)))"
proof -
  let ?pins = "pwm_outputs b"
  have og: "output_groups b = synth_groups ?pins"
    using assms by (rule parse_lines_output_groups)
  have a: "mset (concat (map outputs (synth_groups ?pins))) = mset (map number ?pins)"
    by (simp add: synth_groups_mset)
  have b: "\<forall>p\<in>set ?pins. \<exists>!g. g \<in> set (synth_groups ?pins) \<and> group_timer g = timer p"
    using synth_groups_of_pin by blast
  have c: "\<forall>g\<in>set (synth_groups ?pins).
            outputs g = map number (sort_key number (filter (\<lambda>p. timer p = group_timer g) ?pins))
            \<and> sorted (outputs g)"
    by (simp add: synth_groups_caps(3) sorted_sort_key)
  have d: "sorted_wrt (<) (map group_timer (synth_groups ?pins))"
    by (rule synth_groups_timers_sorted)
  have e: "set (map group_timer (synth_groups ?pins)) = timer ` set ?pins"
    by (rule synth_groups_timer_set)
  have f: "distinct (map number ?pins) \<longrightarrow>
            distinct (concat (map outputs (synth_groups ?pins)))
            \<and> (\<forall>p\<in>set ?pins. \<exists>!g. g \<in> set (synth_groups ?pins) \<and> number p \<in> set (outputs g))"
  proof
    assume dist: "distinct (map number ?pins)"
    have "distinct (concat (map outputs (synth_groups ?pins)))"
      using a dist mset_eq_imp_distinct_iff by blast
    moreover have "\<forall>p\<in>set ?pins. \<exists>!g. g \<in> set (synth_groups ?pins) \<and> number p \<in> set (outputs g)"
      using synth_groups_number_unique [OF dist] by blast
    ultimately show "distinct (concat (map outputs (synth_groups ?pins)))
            \<and> (\<forall>p\<in>set ?pins. \<exists>!g. g \<in> set (synth_groups ?pins) \<and> number p \<in> set (outputs g))"
      by (rule conjI)
  qed
  from a b c d e f show ?thesis
    unfolding og by (intro conjI)
qed

text \<open>
  Claim C2 as stated fails: two pins numbered 1 on two timers put the number 1 in two
  groups.
\<close>

theorem output_group_partition_counterexample:
  "map_sum id (map number \<circ> pwm_outputs)
     (parse_lines example_runtime [] ''X'' [''PA0 TIM1_CH1 TIM1 PWM(1)'', ''PB0 TIM2_CH1 TIM2 PWM(1)''])
     = Inr [1, 1]
   \<and> map_sum id (map outputs \<circ> output_groups)
     (parse_lines example_runtime [] ''X'' [''PA0 TIM1_CH1 TIM1 PWM(1)'', ''PB0 TIM2_CH1 TIM2 PWM(1)''])
     = Inr [[1], [1]]"
  by code_simp

theorem output_group_partition_witness:
  "\<exists>b. parse_lines example_runtime [] ''X''
          [''PA0 TIM2_CH1 TIM2 PWM(2)'', ''PB0 TIM12_CH1 TIM12 PWM(3)'', ''PA1 TIM2_CH2 TIM2 PWM(1)''] = Inr b
     \<and> distinct (map number (pwm_outputs b))
     \<and> map outputs (output_groups b) = [[3], [1, 2]]
     \<and> map group_timer (output_groups b) = [''TIM12'', ''TIM2'']
     \<and> distinct (concat (map outputs (output_groups b)))"
proof -
  let ?lines = "[''PA0 TIM2_CH1 TIM2 PWM(2)'', ''PB0 TIM12_CH1 TIM12 PWM(3)'', ''PA1 TIM2_CH2 TIM2 PWM(1)'']"
  have "list_all is_stripped ?lines" by code_simp
  then obtain b where b: "parse_lines example_runtime [] ''X'' ?lines = Inr b"
    using parse_lines_returns by blast
  have "map_sum id (\<lambda>b. (map number (pwm_outputs b), map outputs (output_groups b),
            map group_timer (output_groups b)))
          (parse_lines example_runtime [] ''X'' ?lines)
        = Inr ([2, 3, 1], [[3], [1, 2]], [''TIM12'', ''TIM2''])"
    by code_simp
  with b have v: "map number (pwm_outputs b) = [2, 3, 1]"
    "map outputs (output_groups b) = [[3], [1, 2]]"
    "map group_timer (output_groups b) = [''TIM12'', ''TIM2'']"
    by simp_all
  then have d: "distinct (map number (pwm_outputs b))" by simp
  with output_group_partition [OF b] have "distinct (concat (map outputs (output_groups b)))"
    by blast
  with b v d show ?thesis by (intro exI [of _ b] conjI)
qed

lemma update_uart_frame [simp]:
  "serial_index (update_uart up nd u) = serial_index u"
  "uart_name (update_uart up nd u) = uart_name u"
  "is_usb (update_uart up nd u) = is_usb u"
  "is_empty (update_uart up nd u) = is_empty u"
  by (simp_all add: update_uart_def Let_def split: option.splits)

lemma post_process_uarts:
  "uarts (post_process rt ids lines b) =
     map (update_uart (foldl uart_pins_step [] lines) (foldl nodma_step {} lines)) (uarts b)"
  by (simp add: post_process_def parse_uart_details_def Let_def)

lemma new_uart_sel [simp]:
  "serial_index (new_uart (i, t)) = int i"
  "uart_name (new_uart (i, t)) = t"
  "is_usb (new_uart (i, t)) = (startswith t ''OTG'' \<or> t = ''USB'')"
  "is_empty (new_uart (i, t)) = (t = ''EMPTY'')"
  "has_tx (new_uart (i, t))" "has_rx (new_uart (i, t))"
  "\<not> tx_dma (new_uart (i, t))" "\<not> rx_dma (new_uart (i, t))"
  by (simp_all add: new_uart_def)

text \<open>
  Claim C3.  Processing a line whose tokens are \<open>SERIAL_ORDER\<close> followed by \<open>toks\<close> replaces
  the board's channels by one channel per token, at the token's index; the channel is empty
  exactly when the token is \<open>EMPTY\<close> and a USB channel exactly when the token starts with
  \<open>OTG\<close> or is \<open>USB\<close>.  Parsing the single line \<open>SERIAL_ORDER OTG1 USART1 EMPTY\<close> gives
  three channels with indices 0, 1, 2, USB flags true, false, false and empty flags false,
  false, true.
\<close>

theorem serial_order_channels:
  assumes "split_ws line = ''SERIAL_ORDER'' # toks"
  shows "(\<exists>b. process_line rt ids board (split_ws line) line undefs = Inr b
           \<and> serial_order b = toks
           \<and> length (uarts b) = length toks
           \<and> (\<forall>i<length toks.
                 serial_index (uarts b ! i) = int i
               \<and> uart_name (uarts b ! i) = toks ! i
               \<and> (is_empty (uarts b ! i) \<longleftrightarrow> toks ! i = ''EMPTY'')
               \<and> (is_usb (uarts b ! i) \<longleftrightarrow> startswith (toks ! i) ''OTG'' \<or> toks ! i = ''USB'')))
       \<and> (\<exists>b. parse_lines rt ids folder [''SERIAL_ORDER OTG1 USART1 EMPTY''] = Inr b
           \<and> map (\<lambda>u. (serial_index u, is_usb u, is_empty u)) (uarts b)
               = [(0, True, False), (1, False, False), (2, False, True)])"
proof (rule conjI)
  let ?b = "dispatch rt ids board ''SERIAL_ORDER'' (''SERIAL_ORDER'' # toks) line undefs"
  have p: "process_line rt ids board (split_ws line) line undefs = Inr ?b"
    by (simp add: assms process_line_def)
  have b: "?b = serial_order_branch board (''SERIAL_ORDER'' # toks)"
    by (simp add: dispatch_def)
  have u: "uarts ?b = map new_uart (enumerate 0 toks)"
    by (simp add: b serial_order_branch_def)
  have so: "serial_order ?b = toks"
    by (simp add: b serial_order_branch_def)
  have "\<forall>i<length toks.
                 serial_index (uarts ?b ! i) = int i
               \<and> uart_name (uarts ?b ! i) = toks ! i
               \<and> (is_empty (uarts ?b ! i) \<longleftrightarrow> toks ! i = ''EMPTY'')
               \<and> (is_usb (uarts ?b ! i) \<longleftrightarrow> startswith (toks ! i) ''OTG'' \<or> toks ! i = ''USB'')"
    by (simp add: u nth_enumerate_eq)
  with p so u show "\<exists>b. process_line rt ids board (split_ws line) line undefs = Inr b
           \<and> serial_order b = toks
           \<and> length (uarts b) = length toks
           \<and> (\<forall>i<length toks.
                 serial_index (uarts b ! i) = int i
               \<and> uart_name (uarts b ! i) = toks ! i
               \<and> (is_empty (uarts b ! i) \<longleftrightarrow> toks ! i = ''EMPTY'')
               \<and> (is_usb (uarts b ! i) \<longleftrightarrow> startswith (toks ! i) ''OTG'' \<or> toks ! i = ''USB''))"
    by simp
next
  let ?L = "''SERIAL_ORDER OTG1 USART1 EMPTY''"
  let ?B = "(new_board folder)\<lparr>header_comments := join [CHR 0x0A] (take 10 (header_scan [?L]))\<rparr>"
  let ?b1 = "dispatch rt ids ?B ''SERIAL_ORDER'' [''SERIAL_ORDER'', ''OTG1'', ''USART1'', ''EMPTY''] ?L {}"
  have f1: "\<not> is_skipped ?L" by code_simp
  have f2: "\<not> startswith ?L ''undef ''" by code_simp
  have f3: "split_ws ?L = [''SERIAL_ORDER'', ''OTG1'', ''USART1'', ''EMPTY'']" by code_simp
  have loop: "directive_loop rt ids [?L] ?B {} = Inr ?b1"
    by (simp add: f1 f2 f3 process_line_def del: header_scan.simps)
  have "?b1 = serial_order_branch ?B [''SERIAL_ORDER'', ''OTG1'', ''USART1'', ''EMPTY'']"
    by (simp add: dispatch_def del: header_scan.simps)
  then have u: "uarts ?b1 = [new_uart (0, ''OTG1''), new_uart (1, ''USART1''), new_uart (2, ''EMPTY'')]"
    by (simp add: serial_order_branch_def enumerate_eq_zip upt_rec del: header_scan.simps)
  have st: "startswith ''OTG1'' ''OTG''" "\<not> startswith ''USART1'' ''OTG''" "\<not> startswith ''EMPTY'' ''OTG''"
    by code_simp+
  have A: "parse_lines rt ids folder [?L] = Inr (post_process rt ids [?L] ?b1)"
    using loop by (simp add: parse_lines_def Let_def del: directive_loop.simps header_scan.simps)
  have B: "map (\<lambda>u. (serial_index u, is_usb u, is_empty u)) (uarts (post_process rt ids [?L] ?b1))
      = [(0, True, False), (1, False, False), (2, False, True)]"
    by (simp add: post_process_uarts u st del: header_scan.simps)
  show "\<exists>b. parse_lines rt ids folder [?L] = Inr b
           \<and> map (\<lambda>u. (serial_index u, is_usb u, is_empty u)) (uarts b)
               = [(0, True, False), (1, False, False), (2, False, True)]"
    by (intro exI conjI) (rule A, rule B)
qed

theorem serial_order_channels_witness:
  "\<exists>b. process_line example_runtime [] (new_board ''X'') (split_ws ''SERIAL_ORDER USB EMPTY'')
          ''SERIAL_ORDER USB EMPTY'' {} = Inr b
     \<and> length (uarts b) = 2 \<and> is_usb (uarts b ! 0) \<and> \<not> is_empty (uarts b ! 0)
     \<and> is_empty (uarts b ! 1) \<and> serial_index (uarts b ! 1) = 1"
proof -
  have s: "split_ws ''SERIAL_ORDER USB EMPTY'' = ''SERIAL_ORDER'' # [''USB'', ''EMPTY'']"
    by code_simp
  have st: "\<not> startswith ''EMPTY'' ''OTG''" by code_simp
  from serial_order_channels [OF s, of example_runtime "[]" "new_board ''X''" "{}"]
  obtain b where b: "process_line example_runtime [] (new_board ''X'') (split_ws ''SERIAL_ORDER USB EMPTY'')
          ''SERIAL_ORDER USB EMPTY'' {} = Inr b"
    and l: "length (uarts b) = length [''USB'', ''EMPTY'']"
    and a: "\<forall>i<length [''USB'', ''EMPTY''].
                 serial_index (uarts b ! i) = int i
               \<and> uart_name (uarts b ! i) = [''USB'', ''EMPTY''] ! i
               \<and> (is_empty (uarts b ! i) \<longleftrightarrow> [''USB'', ''EMPTY''] ! i = ''EMPTY'')
               \<and> (is_usb (uarts b ! i) \<longleftrightarrow> startswith ([''USB'', ''EMPTY''] ! i) ''OTG'' \<or> [''USB'', ''EMPTY''] ! i = ''USB'')"
    by blast
  from a have "is_usb (uarts b ! 0) \<and> \<not> is_empty (uarts b ! 0)" by simp
  moreover from a have "is_empty (uarts b ! 1) \<and> serial_index (uarts b ! 1) = 1"
    by (simp add: st)
  ultimately show ?thesis using b l by (intro exI [of _ b]) simp
qed










lemma nodma_tokens:
  "p \<in> foldl (\<lambda>acc q. foldl (\<lambda>acc2 uart_prefix. if startswith q uart_prefix then insert q acc2 else acc2)
                          acc [''USART'', ''UART'']) S toks
   \<longleftrightarrow> p \<in> S \<or> (p \<in> set toks \<and> (startswith p ''USART'' \<or> startswith p ''UART''))"
  by (induction toks arbitrary: S) auto

lemma nodma_step_mem: "p \<in> nodma_step S line \<longleftrightarrow> p \<in> S \<or> nodma_line p line"
  unfolding nodma_step_def nodma_line_def by (simp only: nodma_tokens split: if_split) auto

lemma nodma_fold_mem:
  "p \<in> foldl nodma_step S lines \<longleftrightarrow> p \<in> S \<or> (\<exists>line\<in>set lines. nodma_line p line)"
  by (induction lines arbitrary: S) (auto simp: nodma_step_mem)

lemma fresh_new_uart: "fresh_uart (new_uart iu)"
  by (simp add: fresh_uart_def new_uart_def)

lemma loop_uarts_fresh:
  assumes "directive_loop rt ids lines board undefs = Inr b"
    and "list_all fresh_uart (uarts board)"
  shows "list_all fresh_uart (uarts b)"
  using assms
  by (rule directive_loop_invariant [where P = "\<lambda>x. list_all fresh_uart (uarts x)", rotated])
     (simp add: dispatch_uarts list_all_iff fresh_new_uart)

lemma parse_lines_uarts:
  assumes "parse_lines rt ids folder lines = Inr b" and "u \<in> set (uarts b)"
  shows "\<exists>u0. fresh_uart u0 \<and>
           u = update_uart (foldl uart_pins_step [] lines) (foldl nodma_step {} lines) u0"
proof -
  from assms(1) obtain b1 where
    loop: "directive_loop rt ids lines
             ((new_board folder)\<lparr>header_comments := join [CHR 0x0A] (take 10 (header_scan lines))\<rparr>) {}
           = Inr b1"
    and b: "b = post_process rt ids lines b1"
    by (auto simp: parse_lines_Inr)
  have "list_all fresh_uart (uarts b1)"
    by (rule loop_uarts_fresh [OF loop]) (simp add: new_board_def)
  with assms(2) show ?thesis
    by (auto simp: b post_process_uarts list_all_iff)
qed


lemma update_uart_dma:
  "tx_dma (update_uart up nd u) = (if \<not> is_usb u \<and> \<not> is_empty u then True else tx_dma u)"
  "rx_dma (update_uart up nd u) =
     (if \<not> is_usb u \<and> \<not> is_empty u then uart_name u \<notin> nd else rx_dma u)"
  by (auto simp: update_uart_def Let_def split: option.splits)


lemma uart_dma_rule:
  assumes "parse_lines rt ids folder lines = Inr b" and "u \<in> set (uarts b)"
  shows "(\<not> is_usb u \<and> \<not> is_empty u \<longrightarrow>
            tx_dma u \<and> (rx_dma u \<longleftrightarrow> \<not> (\<exists>line\<in>set lines. nodma_line (uart_name u) line)))
       \<and> (is_usb u \<or> is_empty u \<longrightarrow> \<not> tx_dma u \<and> \<not> rx_dma u)"
proof -
  from parse_lines_uarts [OF assms] obtain u0 where
    f: "fresh_uart u0"
    and u: "u = update_uart (foldl uart_pins_step [] lines) (foldl nodma_step {} lines) u0"
    by blast
  from f have t: "\<not> tx_dma u0" "\<not> rx_dma u0" by (simp_all add: fresh_uart_def)
  show ?thesis
    unfolding u update_uart_dma update_uart_frame nodma_fold_mem
    using t by simp
qed


text \<open>
  Claim C6, at the failing input.  The scan for \<open>NODMA\<close> collects only tokens that start with
  \<open>USART\<close> or \<open>UART\<close>, although the scan for pins just before it also knows \<open>LPUART\<close>: on
  the lines below the name \<open>LPUART1\<close> stands on a \<open>NODMA\<close> line, is not collected, and the
  channel \<open>LPUART1\<close> ends with \<open>rx_dma\<close> true, while \<open>USART2\<close>, on a \<open>NODMA\<close> line as well,
  ends with \<open>rx_dma\<close> false.
\<close>

theorem nodma_scan_misses_lpuart:
  "map_sum id (map (\<lambda>u. (uart_name u, tx_dma u, rx_dma u)) \<circ> uarts)
     (parse_lines example_runtime [] ''X''
        [''SERIAL_ORDER LPUART1 USART2'', ''PA10 LPUART1_RX LPUART1 NODMA'',
         ''PA3 USART2_RX USART2 NODMA''])
     = Inr [(''LPUART1'', True, True), (''USART2'', True, False)]
   \<and> ''LPUART1'' \<notin> foldl nodma_step {}
        [''SERIAL_ORDER LPUART1 USART2'', ''PA10 LPUART1_RX LPUART1 NODMA'',
         ''PA3 USART2_RX USART2 NODMA'']
   \<and> ''USART2'' \<in> foldl nodma_step {}
        [''SERIAL_ORDER LPUART1 USART2'', ''PA10 LPUART1_RX LPUART1 NODMA'',
         ''PA3 USART2_RX USART2 NODMA'']"
  by code_simp




lemma detect_device_lists [simp]:
  "imu (detect_device rt s dev) = absorb (imu s) (first_chip (imu_order rt) (lower (spi_name dev)))"
  "barometer (detect_device rt s dev)
     = absorb (barometer s) (first_chip (baro_order rt) (lower (spi_name dev)))"
  "compass (detect_device rt s dev)
     = absorb (compass s) (first_chip (compass_order rt) (lower (spi_name dev)))"
  by (simp_all add: detect_device_def Let_def split: option.splits)











lemma rc_scan_step:
  "rc_scan (line # lines) r = (case rc_classify line of Some c \<Rightarrow> c | None \<Rightarrow> rc_scan lines r)"
  by (auto simp: rc_classify_def)

lemma rc_scan_none:
  "\<forall>x\<in>set lines. rc_classify x = None \<Longrightarrow> rc_scan lines r = r"
  by (induction lines) (simp_all add: rc_scan_step del: rc_scan.simps(2))

lemma rc_scan_first:
  "\<forall>x\<in>set pre. rc_classify x = None \<Longrightarrow> rc_classify l = Some c \<Longrightarrow> rc_scan (pre @ l # post) r = c"
  by (induction pre) (simp_all add: rc_scan_step del: rc_scan.simps(2))

lemma dispatch_rc_input [simp]:
  "rc_input (dispatch rt ids board keyword parts line undefs) = rc_input board"
  by (simp add: dispatch_def Let_def if_distrib [of rc_input] option.case_distrib [of rc_input]
      serial_order_branch_def pwm_branch_def spidev_branch_def define_branch_def can_branch_def
      cong del: if_weak_cong option.case_cong_weak)

lemma loop_rc_input:
  assumes "directive_loop rt ids lines board undefs = Inr b"
  shows "rc_input b = rc_input board"
  using assms
  by (rule directive_loop_invariant [where P = "\<lambda>x. rc_input x = rc_input board", rotated]) simp_all

lemma detect_rc_input_sel:
  "rc_input (detect_rc_input b lines) =
     (if serial_input_enabled b then (rc_scan lines (rc_input b))\<lparr>input_type := ''uart''\<rparr>
      else rc_scan lines (rc_input b))"
  by (simp add: detect_rc_input_def serial_input_enabled_def Let_def split: option.splits)

lemma post_process_rc_input:
  "rc_input (post_process rt ids lines b) =
     (if serial_input_enabled b then (rc_scan lines (rc_input b))\<lparr>input_type := ''uart''\<rparr>
      else rc_scan lines (rc_input b))"
  "board_defines (post_process rt ids lines b) = board_defines b"
  by (simp_all add: post_process_def detect_rc_input_sel serial_input_enabled_def)

text \<open>
  Claim C5, as amended.  The override by the define \<open>HAL_SERIAL_INPUT_ENABLED\<close> is applied
  after the scan whether or not a heuristic line was found: when the raw-directive table
  gives the define the value \<open>1\<close> the RC-input type is \<open>uart\<close>, otherwise it is the type the
  scan found; the pin and the timer are always those the scan found.  The scan returns the
  classification of the first line that classifies (timer-based for a line with \<open>RCIN\<close>,
  \<open>TIM\<close> and at least three tokens, else UART-based for a line with \<open>RCIN\<close> and \<open>USART\<close> or
  \<open>UART\<close>) and the unset value when no line does.
\<close>

theorem rc_input_classification:
  assumes "parse_lines rt ids folder lines = Inr b"
  shows "(serial_input_enabled b \<longrightarrow> input_type (rc_input b) = ''uart'')
       \<and> (\<not> serial_input_enabled b \<longrightarrow>
            input_type (rc_input b) = input_type (rc_scan lines no_rc_input))
       \<and> rc_pin (rc_input b) = rc_pin (rc_scan lines no_rc_input)
       \<and> rc_timer (rc_input b) = rc_timer (rc_scan lines no_rc_input)
       \<and> ((\<forall>x\<in>set lines. rc_classify x = None) \<longrightarrow> rc_scan lines no_rc_input = no_rc_input)
       \<and> (\<forall>pre l post c. lines = pre @ l # post \<and> (\<forall>x\<in>set pre. rc_classify x = None)
             \<and> rc_classify l = Some c \<longrightarrow> rc_scan lines no_rc_input = c)"
proof -
  from assms obtain b1 where
    loop: "directive_loop rt ids lines
             ((new_board folder)\<lparr>header_comments := join [CHR 0x0A] (take 10 (header_scan lines))\<rparr>) {}
           = Inr b1"
    and b: "b = post_process rt ids lines b1"
    by (auto simp: parse_lines_Inr)
  have r: "rc_input b1 = no_rc_input"
    using loop_rc_input [OF loop] by (simp add: new_board_def no_rc_input_def)
  have e: "serial_input_enabled b = serial_input_enabled b1"
    by (simp add: b serial_input_enabled_def post_process_rc_input)
  have v: "rc_input b = (if serial_input_enabled b then (rc_scan lines no_rc_input)\<lparr>input_type := ''uart''\<rparr>
      else rc_scan lines no_rc_input)"
    unfolding e by (simp add: b post_process_rc_input r)
  have n: "(\<forall>x\<in>set lines. rc_classify x = None) \<longrightarrow> rc_scan lines no_rc_input = no_rc_input"
    by (simp add: rc_scan_none)
  have f: "\<forall>pre l post c. lines = pre @ l # post \<and> (\<forall>x\<in>set pre. rc_classify x = None)
             \<and> rc_classify l = Some c \<longrightarrow> rc_scan lines no_rc_input = c"
    by (auto simp: rc_scan_first)
  from v n f show ?thesis by simp
qed

text \<open>
  Claim C5 as stated fails: with a timer-based heuristic line present, the define with
  value \<open>1\<close> still turns the type into \<open>uart\<close> (the pin and the timer of the heuristic stay).
\<close>

theorem rc_input_classification_counterexample:
  "map_sum id rc_input
     (parse_lines example_runtime [] ''X''
        [''PA8 TIM1_CH1 TIM1 RCININT PULLDOWN LOW'', ''define HAL_SERIAL_INPUT_ENABLED 1''])
     = Inr \<lparr>input_type = ''uart'', rc_serial_index = None, rc_pin = ''PA8'', rc_timer = ''TIM1''\<rparr>
   \<and> rc_classify ''PA8 TIM1_CH1 TIM1 RCININT PULLDOWN LOW''
     = Some \<lparr>input_type = ''timer'', rc_serial_index = None, rc_pin = ''PA8'', rc_timer = ''TIM1''\<rparr>"
  by code_simp

theorem rc_input_classification_witness:
  "\<exists>b. parse_lines example_runtime [] ''X''
          [''PA8 TIM1_CH1 TIM1 RCININT PULLDOWN LOW'', ''define HAL_SERIAL_INPUT_ENABLED 1''] = Inr b
     \<and> serial_input_enabled b \<and> input_type (rc_input b) = ''uart''
     \<and> rc_pin (rc_input b) = ''PA8'' \<and> rc_timer (rc_input b) = ''TIM1''"
proof -
  let ?lines = "[''PA8 TIM1_CH1 TIM1 RCININT PULLDOWN LOW'', ''define HAL_SERIAL_INPUT_ENABLED 1'']"
  have "list_all is_stripped ?lines" by code_simp
  then obtain b where b: "parse_lines example_runtime [] ''X'' ?lines = Inr b"
    using parse_lines_returns by blast
  have "map_sum id serial_input_enabled (parse_lines example_runtime [] ''X'' ?lines) = Inr True"
    by code_simp
  with b have en: "serial_input_enabled b" by simp
  have sc: "rc_scan ?lines no_rc_input
     = \<lparr>input_type = ''timer'', rc_serial_index = None, rc_pin = ''PA8'', rc_timer = ''TIM1''\<rparr>"
    by code_simp
  note t = rc_input_classification [OF b]
  from t en have ty: "input_type (rc_input b) = ''uart''" by (simp only: simp_thms)
  from t have "rc_pin (rc_input b) = rc_pin (rc_scan ?lines no_rc_input)"
    and "rc_timer (rc_input b) = rc_timer (rc_scan ?lines no_rc_input)"
    by (simp_all only: simp_thms)
  then have pt: "rc_pin (rc_input b) = ''PA8''" "rc_timer (rc_input b) = ''TIM1''"
    unfolding sc by simp_all
  from b en ty pt show ?thesis by (intro exI [of _ b] conjI)
qed

lemma split_acc_first:
  "cur \<noteq> [] \<Longrightarrow> \<exists>t ts. split_acc cur s = t # ts \<and> prefix (rev cur) t"
proof (induction s arbitrary: cur)
  case Nil
  then show ?case by simp
next
  case (Cons c s)
  show ?case
  proof (cases "is_space c")
    case True
    with Cons.prems show ?thesis by simp
  next
    case False
    from Cons.IH [of "c # cur"] obtain t ts where
      "split_acc (c # cur) s = t # ts" "prefix (rev (c # cur)) t"
      by auto
    with False show ?thesis
      by (auto dest: append_prefixD)
  qed
qed

lemma split_ws_first:
  assumes "\<not> is_space c"
  shows "\<exists>t ts. split_ws (c # cs) = t # ts \<and> hd t = c"
proof -
  from split_acc_first [of "[c]" cs] obtain t ts where
    "split_acc [c] cs = t # ts" "prefix [c] t"
    by auto
  with assms show ?thesis
    by (auto simp: split_ws_def prefix_def)
qed

lemma keyword_line_not_skipped:
  assumes "split_ws line = k # rest" "k \<noteq> []" "hd k \<noteq> CHR ''#''"
  shows "\<not> is_skipped line"
proof
  assume "is_skipped line"
  then consider "line = []" | cs where "line = CHR ''#'' # cs"
    by (auto simp: is_skipped_def startswith_def prefix_def)
  then show False
  proof cases
    case 1
    with assms(1) show False by (simp add: split_ws_def)
  next
    case 2
    have "\<not> is_space CHR ''#''" by (simp add: is_space_def)
    from split_ws_first [OF this, of cs] 2 assms show False by auto
  qed
qed

lemma keyword_line_not_undef:
  assumes "split_ws line = k # rest" "hd k \<noteq> CHR ''u''"
  shows "\<not> startswith line ''undef ''"
proof
  assume "startswith line ''undef ''"
  then obtain cs where l: "line = CHR ''u'' # cs"
    by (auto simp: startswith_def prefix_def)
  have "\<not> is_space CHR ''u''" by (simp add: is_space_def)
  from split_ws_first [OF this, of cs] l assms show False by auto
qed

lemma loop_keyword_line:
  assumes "split_ws line = k # rest" "k \<noteq> []" "hd k \<noteq> CHR ''#''" "hd k \<noteq> CHR ''u''"
  shows "directive_loop rt ids (line # lines) board undefs
         = directive_loop rt ids lines (dispatch rt ids board k (k # rest) line undefs) undefs"
  using keyword_line_not_skipped [OF assms(1-3)] keyword_line_not_undef [OF assms(1,4)] assms(1)
  by (simp add: process_line_def)

lemma loop_append:
  "directive_loop rt ids (pre @ rest) board undefs = Inr b \<Longrightarrow>
     \<exists>b1 u1. directive_loop rt ids rest b1 u1 = Inr b"
proof (induction pre arbitrary: board undefs)
  case Nil
  then show ?case by auto
next
  case (Cons line pre)
  from Cons.prems show ?case
    by (auto simp: process_line_def split: if_splits list.splits sum.splits dest: Cons.IH)
qed

lemma define_branch_defines:
  "board_defines (define_branch rt board parts)
     = AList.update (parts ! 1) (join '' '' (drop 2 parts)) (board_defines board)"
  by (simp add: define_branch_def Let_def split: option.splits)

lemma dispatch_defines_other:
  assumes "keyword \<noteq> ''define''"
  shows "board_defines (dispatch rt ids board keyword parts line undefs) = board_defines board"
  using assms
  by (simp add: dispatch_def Let_def if_distrib [of board_defines] option.case_distrib [of board_defines]
      cong del: if_weak_cong option.case_cong_weak)

lemma dispatch_define:
  "board_defines (dispatch rt ids board ''define'' parts line undefs) =
     (if length parts \<ge> 3 \<and> \<not> (length parts \<ge> 4 \<and> contains line ''PWM('')
      then AList.update (parts ! 1) (join '' '' (drop 2 parts)) (board_defines board)
      else board_defines board)"
proof -
  have c: "\<not> contains ''define'' ''BUZZER''" "\<not> contains ''define'' ''LED''"
    "\<not> is_can_keyword ''define''"
    by code_simp+
  show ?thesis
    by (simp add: dispatch_def c define_branch_defines Let_def if_distrib [of board_defines]
        cong del: if_weak_cong option.case_cong_weak) (intro impI, elim conjE, simp)
qed

lemma split_acc_token:
  "\<forall>c\<in>set t. \<not> is_space c \<Longrightarrow> split_acc cur (t @ s) = split_acc (rev t @ cur) s"
  by (induction t arbitrary: cur) simp_all

lemma split_ws_join:
  assumes "\<forall>t\<in>set ts. t \<noteq> [] \<and> (\<forall>c\<in>set t. \<not> is_space c)"
  shows "split_ws (join '' '' ts) = ts"
  using assms
proof (induction ts rule: induct_list012)
  case 1
  then show ?case by (simp add: split_ws_def)
next
  case (2 x)
  then show ?case
    using split_acc_token [of x "[]" "[]"] by (simp add: split_ws_def)
next
  case (3 x y ys)
  have sp: "is_space CHR '' ''" by (simp add: is_space_def)
  from 3 have "split_ws (join '' '' (y # ys)) = y # ys" by simp
  moreover have "split_acc [] (x @ '' '' @ join '' '' (y # ys))
      = x # split_acc [] (join '' '' (y # ys))"
    using split_acc_token [of x "[]" "'' '' @ join '' '' (y # ys)"] 3(3) sp by simp
  ultimately show ?case by (simp add: split_ws_def)
qed

lemma dispatch_defines_frame:
  assumes "take 2 (k # rest) \<noteq> [''define'', nm]"
  shows "map_of (board_defines (dispatch rt ids board k (k # rest) line undefs)) nm
         = map_of (board_defines board) nm"
proof (cases "k = ''define''")
  case False
  then show ?thesis by (simp add: dispatch_defines_other)
next
  case True
  show ?thesis
  proof (cases rest)
    case Nil
    with True show ?thesis by (simp add: dispatch_define)
  next
    case (Cons n rest')
    with True assms have "n \<noteq> nm" by simp
    with True Cons show ?thesis
      by (simp add: dispatch_define update_conv')
  qed
qed

lemma loop_defines_frame:
  "directive_loop rt ids post board undefs = Inr b \<Longrightarrow>
   \<forall>l\<in>set post. take 2 (split_ws l) \<noteq> [''define'', nm] \<Longrightarrow>
   map_of (board_defines b) nm = map_of (board_defines board) nm"
proof (induction post arbitrary: board undefs)
  case Nil
  then show ?case by simp
next
  case (Cons line post)
  from Cons.prems(2) have rest: "\<forall>l\<in>set post. take 2 (split_ws l) \<noteq> [''define'', nm]"
    and here: "take 2 (split_ws line) \<noteq> [''define'', nm]"
    by simp_all
  show ?case
  proof (cases "is_skipped line")
    case True
    with Cons.prems(1) Cons.IH [OF _ rest] show ?thesis by simp
  next
    case ns: False
    show ?thesis
    proof (cases "startswith line ''undef ''")
      case True
      with ns Cons.prems(1) Cons.IH [OF _ rest] show ?thesis
        by (auto split: list.splits)
    next
      case nu: False
      show ?thesis
      proof (cases "split_ws line")
        case Nil
        with ns nu Cons.prems(1) Cons.IH [OF _ rest] show ?thesis by simp
      next
        case (Cons k r)
        with ns nu Cons.prems(1)
        have l: "directive_loop rt ids post (dispatch rt ids board k (k # r) line undefs) undefs = Inr b"
          by (simp add: process_line_def)
        from here Cons have "take 2 (k # r) \<noteq> [''define'', nm]" by simp
        then have "map_of (board_defines (dispatch rt ids board k (k # r) line undefs)) nm
            = map_of (board_defines board) nm"
          by (rule dispatch_defines_frame)
        with Cons.IH [OF l rest] show ?thesis by simp
      qed
    qed
  qed
qed

text \<open>
  Claim C4, as amended.  Take a line whose tokens are \<open>define\<close>, a name and at least one value
  token, that the earlier branch for PWM pins does not take (it has fewer than four tokens
  or does not contain \<open>PWM(\<close>), and after which no line starts with the tokens \<open>define\<close> and
  the same name.  The raw-directive table of the parsed board then maps the name to the
  value tokens joined by single spaces.  By \<open>split_ws_join\<close> this is the value as written
  whenever its tokens are separated by single spaces.
\<close>

theorem define_round_trip:
  assumes "parse_lines rt ids folder (pre @ line # post) = Inr b"
    and "split_ws line = ''define'' # nm # v # vs"
    and "\<not> (vs \<noteq> [] \<and> contains line ''PWM('')"
    and "\<forall>l\<in>set post. take 2 (split_ws l) \<noteq> [''define'', nm]"
  shows "map_of (board_defines b) nm = Some (join '' '' (v # vs))"
proof -
  let ?lines = "pre @ line # post"
  from assms(1) obtain b0 where
    loop: "directive_loop rt ids ?lines
             ((new_board folder)\<lparr>header_comments := join [CHR 0x0A] (take 10 (header_scan ?lines))\<rparr>) {}
           = Inr b0"
    and b: "b = post_process rt ids ?lines b0"
    by (auto simp: parse_lines_Inr)
  from loop_append [OF loop] obtain b1 u1 where
    "directive_loop rt ids (line # post) b1 u1 = Inr b0"
    by blast
  then have l: "directive_loop rt ids post
                  (dispatch rt ids b1 ''define'' (''define'' # nm # v # vs) line u1) u1 = Inr b0"
    using loop_keyword_line [OF assms(2), of rt ids post b1 u1] by simp
  have "map_of (board_defines b0) nm
      = map_of (board_defines (dispatch rt ids b1 ''define'' (''define'' # nm # v # vs) line u1)) nm"
    using l assms(4) by (rule loop_defines_frame)
  also have "\<dots> = Some (join '' '' (v # vs))"
    using assms(3) by (cases vs) (simp_all add: dispatch_define update_conv')
  finally show ?thesis
    by (simp add: b post_process_rc_input(2))
qed

text \<open>
  Claim C4 as stated fails: a run of two spaces inside a value is stored as one space, an
  earlier value of a name defined twice is not in the table, and a define line with four
  tokens that contains \<open>PWM(\<close> is not stored at all.
\<close>

theorem define_round_trip_counterexample:
  "map_sum id board_defines
     (parse_lines example_runtime [] ''X''
        [''define FOO a  b'', ''define BAR 1'', ''define BAR 2'', ''define BAZ PWM(3) x''])
     = Inr [(''FOO'', ''a b''), (''BAR'', ''2'')]"
  by code_simp

theorem define_round_trip_witness:
  "\<exists>b. parse_lines example_runtime [] ''X''
          ([''define BAR 1''] @ ''define BAR 2  3'' # [''MCU STM32F4xx STM32F405xx'']) = Inr b
     \<and> split_ws ''define BAR 2  3'' = ''define'' # ''BAR'' # ''2'' # [''3'']
     \<and> map_of (board_defines b) ''BAR'' = Some ''2 3''"
proof -
  let ?pre = "[''define BAR 1'']" and ?line = "''define BAR 2  3''"
  let ?post = "[''MCU STM32F4xx STM32F405xx'']"
  have "list_all is_stripped (?pre @ ?line # ?post)" by code_simp
  then obtain b where b: "parse_lines example_runtime [] ''X'' (?pre @ ?line # ?post) = Inr b"
    using parse_lines_returns by blast
  have s: "split_ws ?line = ''define'' # ''BAR'' # ''2'' # [''3'']" by code_simp
  have p: "\<not> ([''3''] \<noteq> [] \<and> contains ?line ''PWM('')" by code_simp
  have q: "\<forall>l\<in>set ?post. take 2 (split_ws l) \<noteq> [''define'', ''BAR'']" by code_simp
  have j: "join '' '' (''2'' # [''3'']) = ''2 3''" by code_simp
  from define_round_trip [OF b s p q] have "map_of (board_defines b) ''BAR'' = Some ''2 3''"
    unfolding j .
  with b s show ?thesis by (intro exI [of _ b] conjI)
qed

end
